theory Spec2Isabelle
  imports Complex_Main
begin

section \<open>The weather dashboard of \<open>src/js/app.js\<close>\<close>

text \<open>
  The module is a set of event handlers over one page. The embedding keeps the page, the
  timers and the requests in flight in one record, and every handler is a function from
  this record to this record. The browser's event loop is the function \<open>step\<close>: one event
  (a keystroke, time passing, a response arriving, a call from the router) runs one handler
  to its end, as the single-threaded runtime does.

  Markup is kept as data: an element built from a template literal is the record of the
  values the template interpolates, and a page region is the list of its children. The
  text formatting of \<open>module.js\<close> (dates, hours, wind speed) is not applied: the element
  holds the arguments. Numbers of the payloads are \<open>real\<close> or \<open>int\<close>; the only
  arithmetic is the templates' own (the wind direction less 180, the visibility by 1000).
  The cursor and the tab handlers write no class, style or content that the handlers
  below read or write, and are left out.
\<close>

subsection \<open>Response payloads\<close>

record weather_item =
  description :: string
  icon :: string

record current_weather =
  cw_weather :: "weather_item list"
  cw_dt :: int
  cw_sunrise :: int
  cw_sunset :: int
  cw_temp :: real
  cw_feels_like :: real
  cw_pressure :: real
  cw_humidity :: real
  cw_visibility :: real
  cw_timezone :: int

record forecast_entry =
  fe_dt :: int
  fe_temp :: real
  fe_temp_max :: real
  fe_weather :: "weather_item list"
  fe_wind_deg :: real
  fe_wind_speed :: real
  fe_dt_txt :: string

record forecast =
  fc_list :: "forecast_entry list"
  fc_timezone :: int

record air_entry =
  aqi :: int
  no2 :: real
  o3 :: real
  so2 :: real
  pm2_5 :: real

record air_pollution =
  ap_list :: "air_entry list"

record location =
  loc_name :: string
  loc_lat :: real
  loc_lon :: real
  loc_country :: string
  loc_state :: "string option"

datatype response =
    RLocations "location list"
  | RCurrentWeather current_weather
  | RForecast forecast
  | RAirPollution air_pollution

subsection \<open>Requests and callbacks\<close>

text \<open>
  Modelled from the spec: the endpoint builder \<open>url\<close> of \<open>api.js\<close>, which is not among the
  sources. A URL is the endpoint with the arguments it was built from.
\<close>

datatype url =
    Geo string
  | CurrentWeather real real
  | ReverseGeo real real
  | Forecast real real
  | AirPollution real real

datatype endpoint = GeoE | CurrentWeatherE | ReverseGeoE | ForecastE | AirPollutionE

fun endpoint_of :: "url \<Rightarrow> endpoint" where
  "endpoint_of (Geo q) = GeoE"
| "endpoint_of (CurrentWeather la lo) = CurrentWeatherE"
| "endpoint_of (ReverseGeo la lo) = ReverseGeoE"
| "endpoint_of (Forecast la lo) = ForecastE"
| "endpoint_of (AirPollution la lo) = AirPollutionE"

text \<open>
  A callback is a closure: the constructor names the function expression of the source,
  the arguments are the variables it captures. The first argument of the four callbacks of
  \<open>updateWeather\<close> is the number of the call of \<open>updateWeather\<close> that created the closure; no
  handler reads it, it only tells the calls apart in the statements below.
\<close>

datatype callback =
    GeoCb
  | CurrentWeatherCb nat real real
  | ReverseGeoCb nat nat
  | ForecastCb nat real real current_weather
  | AirPollutionCb nat current_weather int

datatype origin = Search | Run nat

fun origin_of :: "callback \<Rightarrow> origin" where
  "origin_of GeoCb = Search"
| "origin_of (CurrentWeatherCb r la lo) = Run r"
| "origin_of (ReverseGeoCb r c) = Run r"
| "origin_of (ForecastCb r la lo cw) = Run r"
| "origin_of (AirPollutionCb r cw tz) = Run r"

record request =
  req_url :: url
  req_cb :: callback

datatype fetch_event = Issued origin url | Completed origin url | Failed origin url

datatype error = TypeError

subsection \<open>The page\<close>

record now_card =
  nc_temp :: real
  nc_icon :: string
  nc_description :: string
  nc_date :: "int \<times> int"
  nc_location :: "(string \<times> string) option"

record hourly_item =
  hi_time :: "int \<times> int"
  hi_icon :: string
  hi_description :: string
  hi_temp :: real
  hi_wind_direction :: real
  hi_wind_speed :: real

record highlight_card =
  hl_humidity :: real
  hl_pressure :: real
  hl_feels_like :: real
  hl_visibility :: real
  hl_sunrise :: "int \<times> int"
  hl_sunset :: "int \<times> int"
  hl_aqi :: int
  hl_pm2_5 :: real
  hl_so2 :: real
  hl_no2 :: real
  hl_o3 :: real

record daily_item =
  di_icon :: string
  di_description :: string
  di_temp_max :: real
  di_dt_txt :: string

record search_item =
  si_name :: string
  si_state :: string
  si_country :: string
  si_lat :: real
  si_lon :: real

text \<open>
  A region holding cards with a list inside (\<open>[data-hourly]\<close>, \<open>[data-forecast-list]\<close>,
  \<open>[data-search-list]\<close>) is the list of these lists, one per card. The "now" cards are
  objects that a later callback writes to, so they live in a store (\<open>cards\<close>, addressed by
  position) and the region holds their addresses.

  The last three fields observe the run and are read by no handler: \<open>fetch_log\<close> records
  the requests issued, completed and failed, \<open>uncaught\<close> the exceptions that left a
  callback, and \<open>runs\<close> counts the calls of \<open>updateWeather\<close>.
\<close>

record state =
  loading_active :: bool
  container_overflowY :: string
  container_fade_in :: bool
  error_display :: string
  current_location_disabled :: bool
  location_hash :: string
  cards :: "now_card list"
  current_weather_section :: "nat list"
  hourly_section :: "hourly_item list list"
  highlight_section :: "highlight_card list"
  forecast_section :: "daily_item list list"
  search_view_active :: bool
  search_field_value :: string
  search_field_searching :: bool
  search_result_active :: bool
  search_result :: "search_item list list"
  searchTimeout :: "nat option"
  timers :: "(nat \<times> nat) list"
  next_timer :: nat
  clock :: nat
  pending :: "request list"
  fetch_log :: "fetch_event list"
  uncaught :: "error list"
  runs :: nat

text \<open>
  A callback either runs to its end (\<open>Inr\<close>) or throws (\<open>Inl\<close>); the page keeps what was
  written before the throw, so the error comes with the state reached.
\<close>

type_synonym result = "(error \<times> state) + state"

definition and_then :: "result \<Rightarrow> (state \<Rightarrow> result) \<Rightarrow> result" where
  "and_then r f = (case r of Inl x \<Rightarrow> Inl x | Inr s \<Rightarrow> f s)"

fun result_state :: "result \<Rightarrow> state" where
  "result_state (Inl (e, s)) = s"
| "result_state (Inr s) = s"

subsection \<open>Fetching and timers\<close>

text \<open>
  Modelled from the spec: \<open>fetchData\<close> of \<open>api.js\<close>, which is not among the sources. It
  issues the request and returns; the callback is invoked later with the parsed body, when
  the response has arrived (\<open>Response\<close> below). A request that fails never invokes its
  callback (\<open>Failure\<close> below).
\<close>

definition fetchData :: "url \<Rightarrow> callback \<Rightarrow> state \<Rightarrow> state" where
  "fetchData u cb st =
     st\<lparr>pending := pending st @ [\<lparr>req_url = u, req_cb = cb\<rparr>],
        fetch_log := fetch_log st @ [Issued (origin_of cb) u]\<rparr>"

definition searchTimeoutDuration :: nat where
  "searchTimeoutDuration = 500"

text \<open>\<open>setTimeout\<close> with the one timer callback of the search field; it returns the timer's id.\<close>

definition setTimeout :: "nat \<Rightarrow> state \<Rightarrow> nat \<times> state" where
  "setTimeout delay st =
     (next_timer st,
      st\<lparr>timers := timers st @ [(next_timer st, clock st + delay)],
         next_timer := Suc (next_timer st)\<rparr>)"

fun clearTimeout :: "nat option \<Rightarrow> state \<Rightarrow> state" where
  "clearTimeout None st = st"
| "clearTimeout (Some t) st = st\<lparr>timers := filter (\<lambda>p. fst p \<noteq> t) (timers st)\<rparr>"

subsection \<open>\<open>updateWeather\<close>: the entry and \<open>error404\<close>\<close>

definition updateWeather :: "real \<Rightarrow> real \<Rightarrow> state \<Rightarrow> state" where
  "updateWeather lat lon st =
     (let st1 = st\<lparr>loading_active := True,
                   container_overflowY := ''hidden'',
                   container_fade_in := False,
                   error_display := ''none''\<rparr>;
          st2 = st1\<lparr>current_weather_section := [],
                    hourly_section := [],
                    highlight_section := [],
                    forecast_section := []\<rparr>;
          st3 = (if location_hash st2 = ''#/current-location''
                 then st2\<lparr>current_location_disabled := True\<rparr>
                 else st2\<lparr>current_location_disabled := False\<rparr>);
          st4 = st3\<lparr>runs := Suc (runs st3)\<rparr>
      in fetchData (CurrentWeather lat lon) (CurrentWeatherCb (runs st) lat lon) st4)"

definition error404 :: "state \<Rightarrow> state" where
  "error404 st = st\<lparr>error_display := ''flex'', loading_active := False\<rparr>"

subsection \<open>\<open>updateWeather\<close>: the callbacks\<close>

text \<open>The icon of an entry, as each of the three templates computes it.\<close>

definition weatherIcon :: "weather_item \<Rightarrow> string" where
  "weatherIcon w = (if description w = ''broken clouds'' then ''04.0d'' else icon w)"

definition now_card_of :: "current_weather \<Rightarrow> weather_item \<Rightarrow> now_card" where
  "now_card_of currentWeather w =
     \<lparr>nc_temp = cw_temp currentWeather,
      nc_icon = weatherIcon w,
      nc_description = description w,
      nc_date = (cw_dt currentWeather, cw_timezone currentWeather),
      nc_location = None\<rparr>"

definition hourlyLi :: "int \<Rightarrow> forecast_entry \<Rightarrow> weather_item \<Rightarrow> hourly_item" where
  "hourlyLi timezone data w =
     \<lparr>hi_time = (fe_dt data, timezone),
      hi_icon = weatherIcon w,
      hi_description = description w,
      hi_temp = fe_temp data,
      hi_wind_direction = fe_wind_deg data - 180,
      hi_wind_speed = fe_wind_speed data\<rparr>"

definition dailyLi :: "forecast_entry \<Rightarrow> weather_item \<Rightarrow> daily_item" where
  "dailyLi data w =
     \<lparr>di_icon = weatherIcon w,
      di_description = description w,
      di_temp_max = fe_temp_max data,
      di_dt_txt = fe_dt_txt data\<rparr>"

text \<open>
  Modelled from the spec: the table \<open>aqiText\<close> of \<open>module.js\<close>, which is not among the
  sources; the spec gives the air quality index the range 1 to 5. Reading \<open>message\<close> or
  \<open>level\<close> of an entry the table does not have throws.
\<close>

definition aqiText_has :: "int \<Rightarrow> bool" where
  "aqiText_has a = (1 \<le> a \<and> a \<le> 5)"

definition highlight_card_of :: "current_weather \<Rightarrow> int \<Rightarrow> air_entry \<Rightarrow> highlight_card" where
  "highlight_card_of currentWeather timezone a =
     \<lparr>hl_humidity = cw_humidity currentWeather,
      hl_pressure = cw_pressure currentWeather,
      hl_feels_like = cw_feels_like currentWeather,
      hl_visibility = cw_visibility currentWeather / 1000,
      hl_sunrise = (cw_sunrise currentWeather, timezone),
      hl_sunset = (cw_sunset currentWeather, timezone),
      hl_aqi = aqi a,
      hl_pm2_5 = pm2_5 a,
      hl_so2 = so2 a,
      hl_no2 = no2 a,
      hl_o3 = o3 a\<rparr>"

text \<open>
  The callback of the current weather. \<open>const [{ description, icon }] = weather\<close> throws on
  an empty array. The card is created, the reverse geocoding is requested for its label,
  the card is appended, and the forecast is requested.
\<close>

definition currentWeatherCb :: "nat \<Rightarrow> real \<Rightarrow> real \<Rightarrow> current_weather \<Rightarrow> state \<Rightarrow> result" where
  "currentWeatherCb r lat lon currentWeather st =
     (case cw_weather currentWeather of
        [] \<Rightarrow> Inl (TypeError, st)
      | w # _ \<Rightarrow>
          (let addr = length (cards st);
               st1 = st\<lparr>cards := cards st @ [now_card_of currentWeather w]\<rparr>;
               st2 = fetchData (ReverseGeo lat lon) (ReverseGeoCb r addr) st1;
               st3 = st2\<lparr>current_weather_section := current_weather_section st2 @ [addr]\<rparr>
           in Inr (fetchData (Forecast lat lon) (ForecastCb r lat lon currentWeather) st3)))"

definition reverseGeoCb :: "nat \<Rightarrow> location list \<Rightarrow> state \<Rightarrow> result" where
  "reverseGeoCb addr locations st =
     (case locations of
        [] \<Rightarrow> Inl (TypeError, st)
      | l # _ \<Rightarrow>
          Inr (st\<lparr>cards := (cards st)
                 [addr := (cards st ! addr)\<lparr>nc_location := Some (loc_name l, loc_country l)\<rparr>]\<rparr>))"

text \<open>
  \<open>for (const [index, data] of forecastList.entries())\<close> with its \<open>break\<close>. The item goes
  to the first \<open>[data-hourly]\<close> list of the region; with none there, \<open>querySelector\<close> gives
  \<open>null\<close> and the call on it throws.
\<close>

fun hourly_loop :: "int \<Rightarrow> nat \<Rightarrow> forecast_entry list \<Rightarrow> state \<Rightarrow> result" where
  "hourly_loop timezone index [] st = Inr st"
| "hourly_loop timezone index (data # rest) st =
     (if index > 7 then Inr st
      else (case fe_weather data of
              [] \<Rightarrow> Inl (TypeError, st)
            | w # _ \<Rightarrow>
                (case hourly_section st of
                   [] \<Rightarrow> Inl (TypeError, st)
                 | ul # cs \<Rightarrow>
                     hourly_loop timezone (Suc index) rest
                       (st\<lparr>hourly_section := (ul @ [hourlyLi timezone data w]) # cs\<rparr>))))"

text \<open>\<open>for (let i = 7, len = forecastList.length; i < len; i += 8)\<close>.\<close>

function daily_loop :: "nat \<Rightarrow> forecast_entry list \<Rightarrow> state \<Rightarrow> result" where
  "daily_loop i forecastList st =
     (if i < length forecastList
      then (case fe_weather (forecastList ! i) of
              [] \<Rightarrow> Inl (TypeError, st)
            | w # _ \<Rightarrow>
                (case forecast_section st of
                   [] \<Rightarrow> Inl (TypeError, st)
                 | ul # cs \<Rightarrow>
                     daily_loop (i + 8) forecastList
                       (st\<lparr>forecast_section := (ul @ [dailyLi (forecastList ! i) w]) # cs\<rparr>)))
      else Inr st)"
  by pat_completeness auto
termination
  by (relation "measure (\<lambda>(i, forecastList, st). length forecastList - i)") auto

declare daily_loop.simps [simp del]

text \<open>
  The callback of the forecast. The \<open>timezone\<close> it destructures from the forecast's city
  shadows the one of the current weather, so the air pollution callback created here
  captures the forecast's.
\<close>

definition forecastCb ::
  "nat \<Rightarrow> real \<Rightarrow> real \<Rightarrow> current_weather \<Rightarrow> forecast \<Rightarrow> state \<Rightarrow> result" where
  "forecastCb r lat lon currentWeather fc st =
     (let forecastList = fc_list fc;
          timezone = fc_timezone fc;
          st1 = st\<lparr>hourly_section := [[]]\<rparr>
      in and_then (hourly_loop timezone 0 forecastList st1) (\<lambda>st2.
           let st3 = fetchData (AirPollution lat lon)
                       (AirPollutionCb r currentWeather timezone) st2;
               st4 = st3\<lparr>forecast_section := [[]]\<rparr>
           in and_then (daily_loop 7 forecastList st4) (\<lambda>st5.
                Inr (st5\<lparr>loading_active := False,
                         container_overflowY := ''overlay'',
                         container_fade_in := True\<rparr>))))"

definition airPollutionCb :: "current_weather \<Rightarrow> int \<Rightarrow> air_pollution \<Rightarrow> state \<Rightarrow> result" where
  "airPollutionCb currentWeather timezone airPollution st =
     (case ap_list airPollution of
        [] \<Rightarrow> Inl (TypeError, st)
      | a # _ \<Rightarrow>
          if aqiText_has (aqi a)
          then Inr (st\<lparr>highlight_section :=
                        highlight_section st @ [highlight_card_of currentWeather timezone a]\<rparr>)
          else Inl (TypeError, st))"

subsection \<open>The search field\<close>

definition toggleSearch :: "state \<Rightarrow> state" where
  "toggleSearch st = st\<lparr>search_view_active := \<not> search_view_active st\<rparr>"

definition searchItem :: "location \<Rightarrow> search_item" where
  "searchItem l =
     \<lparr>si_name = loc_name l,
      si_state = (case loc_state l of None \<Rightarrow> [] | Some s \<Rightarrow> s),
      si_country = loc_country l,
      si_lat = loc_lat l,
      si_lon = loc_lon l\<rparr>"

fun search_loop :: "location list \<Rightarrow> state \<Rightarrow> result" where
  "search_loop [] st = Inr st"
| "search_loop (l # ls) st =
     (case search_result st of
        [] \<Rightarrow> Inl (TypeError, st)
      | ul # cs \<Rightarrow> search_loop ls (st\<lparr>search_result := (ul @ [searchItem l]) # cs\<rparr>))"

definition geoCb_open :: "state \<Rightarrow> state" where
  "geoCb_open st =
     st\<lparr>search_field_searching := False,
        search_result_active := True,
        search_result := [[]]\<rparr>"

definition geoCb :: "location list \<Rightarrow> state \<Rightarrow> result" where
  "geoCb locations st = search_loop locations (geoCb_open st)"

text \<open>The callback of the timer: it reads the field when it fires.\<close>

definition searchTimerCb :: "state \<Rightarrow> state" where
  "searchTimerCb st = fetchData (Geo (search_field_value st)) GeoCb st"

text \<open>
  The listener of the field's input event. \<open>searchTimeout ?? clearTimeout(searchTimeout)\<close>
  evaluates its right operand only when the left one is \<open>null\<close>.
\<close>

definition searchInput :: "state \<Rightarrow> state" where
  "searchInput st =
     (let st1 = (case searchTimeout st of
                   None \<Rightarrow> clearTimeout (searchTimeout st) st
                 | Some t \<Rightarrow> st);
          st2 = (if search_field_value st1 = []
                 then st1\<lparr>search_result_active := False,
                          search_result := [],
                          search_field_searching := False\<rparr>
                 else st1\<lparr>search_field_searching := True\<rparr>)
      in if search_field_value st2 \<noteq> []
         then (case setTimeout searchTimeoutDuration st2 of
                 (t, st3) \<Rightarrow> st3\<lparr>searchTimeout := Some t\<rparr>)
         else st2)"

definition searchItemClick :: "state \<Rightarrow> state" where
  "searchItemClick st = (toggleSearch st)\<lparr>search_result_active := False\<rparr>"

definition currentLocationClick :: "state \<Rightarrow> state" where
  "currentLocationClick st = st\<lparr>location_hash := ''#/current-location''\<rparr>"

subsection \<open>The event loop\<close>

text \<open>
  A callback applied to a body of another endpoint's shape throws in its destructuring,
  before any write; the search callback has written its three lines by then.
\<close>

fun invoke :: "callback \<Rightarrow> response \<Rightarrow> state \<Rightarrow> result" where
  "invoke GeoCb (RLocations ls) st = geoCb ls st"
| "invoke GeoCb body st = Inl (TypeError, geoCb_open st)"
| "invoke (CurrentWeatherCb r lat lon) (RCurrentWeather cw) st = currentWeatherCb r lat lon cw st"
| "invoke (ReverseGeoCb r addr) (RLocations ls) st = reverseGeoCb addr ls st"
| "invoke (ForecastCb r lat lon cw) (RForecast fc) st = forecastCb r lat lon cw fc st"
| "invoke (AirPollutionCb r cw tz) (RAirPollution ap) st = airPollutionCb cw tz ap st"
| "invoke cb body st = Inl (TypeError, st)"

fun settle :: "result \<Rightarrow> state" where
  "settle (Inr s) = s"
| "settle (Inl (e, s)) = s\<lparr>uncaught := uncaught s @ [e]\<rparr>"

definition remove_nth :: "nat \<Rightarrow> 'a list \<Rightarrow> 'a list" where
  "remove_nth i xs = take i xs @ drop (Suc i) xs"

definition respond :: "nat \<Rightarrow> response \<Rightarrow> state \<Rightarrow> state" where
  "respond i body st =
     (if i < length (pending st)
      then (let q = pending st ! i;
                st1 = st\<lparr>pending := remove_nth i (pending st),
                         fetch_log := fetch_log st @ [Completed (origin_of (req_cb q)) (req_url q)]\<rparr>
            in settle (invoke (req_cb q) body st1))
      else st)"

definition fail :: "nat \<Rightarrow> state \<Rightarrow> state" where
  "fail i st =
     (if i < length (pending st)
      then (let q = pending st ! i
            in st\<lparr>pending := remove_nth i (pending st),
                  fetch_log := fetch_log st @ [Failed (origin_of (req_cb q)) (req_url q)]\<rparr>)
      else st)"

text \<open>
  Time passing: the timers that are due fire in the order they were set. The timer
  callback sets no timer, so the due ones are those due at the start.
\<close>

definition elapse :: "nat \<Rightarrow> state \<Rightarrow> state" where
  "elapse n st =
     (let now = clock st + n;
          due = filter (\<lambda>p. snd p \<le> now) (timers st);
          st1 = st\<lparr>clock := now, timers := filter (\<lambda>p. \<not> snd p \<le> now) (timers st)\<rparr>
      in foldl (\<lambda>s p. searchTimerCb s) st1 due)"

datatype event =
    Input string
  | Elapse nat
  | Response nat response
  | Failure nat
  | CallUpdateWeather real real
  | CallError404
  | SearchTogglerClick
  | SearchItemClick
  | CurrentLocationClick

fun step :: "event \<Rightarrow> state \<Rightarrow> state" where
  "step (Input v) st = searchInput (st\<lparr>search_field_value := v\<rparr>)"
| "step (Elapse n) st = elapse n st"
| "step (Response i body) st = respond i body st"
| "step (Failure i) st = fail i st"
| "step (CallUpdateWeather lat lon) st = updateWeather lat lon st"
| "step CallError404 st = error404 st"
| "step SearchTogglerClick st = toggleSearch st"
| "step SearchItemClick st = searchItemClick st"
| "step CurrentLocationClick st = currentLocationClick st"

fun run :: "event list \<Rightarrow> state \<Rightarrow> state" where
  "run [] st = st"
| "run (e # es) st = run es (step e st)"

text \<open>The page as the module finds it when it is loaded: nothing rendered, nothing in flight.\<close>

definition initial :: state where
  "initial =
     \<lparr>loading_active = False,
      container_overflowY = [],
      container_fade_in = False,
      error_display = ''none'',
      current_location_disabled = False,
      location_hash = [],
      cards = [],
      current_weather_section = [],
      hourly_section = [],
      highlight_section = [],
      forecast_section = [],
      search_view_active = False,
      search_field_value = [],
      search_field_searching = False,
      search_result_active = False,
      search_result = [],
      searchTimeout = None,
      timers = [],
      next_timer = 1,
      clock = 0,
      pending = [],
      fetch_log = [],
      uncaught = [],
      runs = 0\<rparr>"

subsection \<open>Indices and sample payloads\<close>

text \<open>The indices \<open>i\<close>, \<open>i + 8\<close>, \<open>i + 16\<close>, ... below \<open>n\<close>, ascending.\<close>

definition sampled :: "nat \<Rightarrow> nat \<Rightarrow> nat list" where
  "sampled i n = filter (\<lambda>j. j mod 8 = i mod 8) [i..<n]"

definition sample_weather :: weather_item where
  "sample_weather = \<lparr>description = ''broken clouds'', icon = ''04d''\<rparr>"

definition clear_sky :: weather_item where
  "clear_sky = \<lparr>description = ''clear sky'', icon = ''01d''\<rparr>"

definition sample_current :: current_weather where
  "sample_current =
     \<lparr>cw_weather = [sample_weather], cw_dt = 1704096000, cw_sunrise = 1704096300,
      cw_sunset = 1704126000, cw_temp = 21, cw_feels_like = 20, cw_pressure = 1012,
      cw_humidity = 60, cw_visibility = 10000, cw_timezone = 19800\<rparr>"

definition sample_entry :: "int \<Rightarrow> string \<Rightarrow> weather_item \<Rightarrow> forecast_entry" where
  "sample_entry h txt w =
     \<lparr>fe_dt = 1704067200 + 3600 * h, fe_temp = 20, fe_temp_max = 22,
      fe_weather = [w], fe_wind_deg = 270, fe_wind_speed = 3, fe_dt_txt = txt\<rparr>"

text \<open>
  Sixteen entries one hour apart, all of the first of January; the entry 7 has broken
  clouds.
\<close>

definition sample_forecast :: forecast where
  "sample_forecast =
     \<lparr>fc_list =
        [sample_entry 0 ''2024-01-01 00:00:00'' clear_sky,
         sample_entry 1 ''2024-01-01 01:00:00'' clear_sky,
         sample_entry 2 ''2024-01-01 02:00:00'' clear_sky,
         sample_entry 3 ''2024-01-01 03:00:00'' clear_sky,
         sample_entry 4 ''2024-01-01 04:00:00'' clear_sky,
         sample_entry 5 ''2024-01-01 05:00:00'' clear_sky,
         sample_entry 6 ''2024-01-01 06:00:00'' clear_sky,
         sample_entry 7 ''2024-01-01 07:00:00'' sample_weather,
         sample_entry 8 ''2024-01-01 08:00:00'' clear_sky,
         sample_entry 9 ''2024-01-01 09:00:00'' clear_sky,
         sample_entry 10 ''2024-01-01 10:00:00'' clear_sky,
         sample_entry 11 ''2024-01-01 11:00:00'' clear_sky,
         sample_entry 12 ''2024-01-01 12:00:00'' clear_sky,
         sample_entry 13 ''2024-01-01 13:00:00'' clear_sky,
         sample_entry 14 ''2024-01-01 14:00:00'' clear_sky,
         sample_entry 15 ''2024-01-01 15:00:00'' clear_sky],
      fc_timezone = 19800\<rparr>"

definition sample_air :: air_pollution where
  "sample_air = \<lparr>ap_list = [\<lparr>aqi = 2, no2 = 1, o3 = 60, so2 = 1, pm2_5 = 5\<rparr>]\<rparr>"


subsection \<open>Observing the requests\<close>

fun cb_endpoint :: "callback \<Rightarrow> endpoint" where
  "cb_endpoint GeoCb = GeoE"
| "cb_endpoint (CurrentWeatherCb r la lo) = CurrentWeatherE"
| "cb_endpoint (ReverseGeoCb r a) = ReverseGeoE"
| "cb_endpoint (ForecastCb r la lo cw) = ForecastE"
| "cb_endpoint (AirPollutionCb r cw tz) = AirPollutionE"

text \<open>
  A request in flight is well formed when its callback is the one the source passes for
  its endpoint, and its call of \<open>updateWeather\<close> is one of the \<open>n\<close> calls made so far.
\<close>

definition wf_request :: "nat \<Rightarrow> request \<Rightarrow> bool" where
  "wf_request n q =
     (endpoint_of (req_url q) = cb_endpoint (req_cb q) \<and>
      (case origin_of (req_cb q) of Search \<Rightarrow> True | Run r \<Rightarrow> r < n))"

fun is_issued :: "nat \<Rightarrow> endpoint \<Rightarrow> fetch_event \<Rightarrow> bool" where
  "is_issued r k (Issued orig u) = (orig = Run r \<and> endpoint_of u = k)"
| "is_issued r k (Completed orig u) = False"
| "is_issued r k (Failed orig u) = False"

fun is_completed :: "nat \<Rightarrow> endpoint \<Rightarrow> fetch_event \<Rightarrow> bool" where
  "is_completed r k (Completed orig u) = (orig = Run r \<and> endpoint_of u = k)"
| "is_completed r k (Issued orig u) = False"
| "is_completed r k (Failed orig u) = False"

text \<open>
  \<open>precedes P Q xs\<close>: scanning \<open>xs\<close> from its start, no \<open>Q\<close> is met before the first \<open>P\<close>.
  For events \<open>P\<close> and \<open>Q\<close> that exclude each other: every \<open>Q\<close> of the log has a \<open>P\<close> before
  it.
\<close>

fun precedes :: "('a \<Rightarrow> bool) \<Rightarrow> ('a \<Rightarrow> bool) \<Rightarrow> 'a list \<Rightarrow> bool" where
  "precedes P Q [] = True"
| "precedes P Q (x # xs) = (if P x then True else if Q x then False else precedes P Q xs)"

text \<open>The three requests of the chain of call \<open>r\<close> that are in flight.\<close>

definition chain_endpoint :: "endpoint \<Rightarrow> bool" where
  "chain_endpoint k = (k = CurrentWeatherE \<or> k = ForecastE \<or> k = AirPollutionE)"

definition in_flight :: "nat \<Rightarrow> state \<Rightarrow> request list" where
  "in_flight r st =
     filter (\<lambda>q. origin_of (req_cb q) = Run r \<and> chain_endpoint (endpoint_of (req_url q)))
       (pending st)"


text \<open>Events that neither start another call of \<open>updateWeather\<close> nor lose a request.\<close>

fun quiet :: "event \<Rightarrow> bool" where
  "quiet (CallUpdateWeather lat lon) = False"
| "quiet (Failure i) = False"
| "quiet e = True"






subsection \<open>The spacing of the forecast\<close>

text \<open>
  The forecast endpoint is the 5-day/3-hour one: consecutive entries of its list are three
  hours (10800 seconds) apart.
\<close>

fun three_hourly :: "forecast_entry list \<Rightarrow> bool" where
  "three_hourly [] = True"
| "three_hourly [d] = True"
| "three_hourly (d # e # ds) = (fe_dt e = fe_dt d + 10800 \<and> three_hourly (e # ds))"

text \<open>The day an entry falls on, in the time zone \<open>tz\<close> seconds east of UTC.\<close>

definition day_of :: "int \<Rightarrow> forecast_entry \<Rightarrow> int" where
  "day_of tz d = (fe_dt d + tz) div 86400"

text \<open>Sixteen entries three hours apart, from the first of January at midnight.\<close>

definition sample_three_hourly :: forecast where
  "sample_three_hourly =
     \<lparr>fc_list =
        [sample_entry 0 ''2024-01-01 00:00:00'' clear_sky,
         sample_entry 3 ''2024-01-01 03:00:00'' clear_sky,
         sample_entry 6 ''2024-01-01 06:00:00'' clear_sky,
         sample_entry 9 ''2024-01-01 09:00:00'' clear_sky,
         sample_entry 12 ''2024-01-01 12:00:00'' clear_sky,
         sample_entry 15 ''2024-01-01 15:00:00'' clear_sky,
         sample_entry 18 ''2024-01-01 18:00:00'' clear_sky,
         sample_entry 21 ''2024-01-01 21:00:00'' clear_sky,
         sample_entry 24 ''2024-01-02 00:00:00'' clear_sky,
         sample_entry 27 ''2024-01-02 03:00:00'' clear_sky,
         sample_entry 30 ''2024-01-02 06:00:00'' clear_sky,
         sample_entry 33 ''2024-01-02 09:00:00'' clear_sky,
         sample_entry 36 ''2024-01-02 12:00:00'' clear_sky,
         sample_entry 39 ''2024-01-02 15:00:00'' clear_sky,
         sample_entry 42 ''2024-01-02 18:00:00'' clear_sky,
         sample_entry 45 ''2024-01-02 21:00:00'' clear_sky],
      fc_timezone = 19800\<rparr>"

section \<open>Properties\<close>

subsection \<open>The two loops of the forecast callback\<close>

lemma hourly_loop_ok:
  "\<forall>d \<in> set (take (8 - index) ds). fe_weather d \<noteq> [] \<Longrightarrow> hourly_section st = ul # cs \<Longrightarrow>
   hourly_loop tz index ds st =
     Inr (st\<lparr>hourly_section :=
        (ul @ map (\<lambda>d. hourlyLi tz d (hd (fe_weather d))) (take (8 - index) ds)) # cs\<rparr>)"
proof (induction ds arbitrary: index st ul)
  case Nil
  then show ?case by simp
next
  case (Cons d ds)
  show ?case
  proof (cases "index > 7")
    case True
    then show ?thesis using Cons.prems by simp
  next
    case False
    then have k: "8 - index = Suc (8 - Suc index)" by simp
    from Cons.prems k obtain w ws where w: "fe_weather d = w # ws"
      by (cases "fe_weather d") auto
    have rest: "\<forall>d \<in> set (take (8 - Suc index) ds). fe_weather d \<noteq> []"
      using Cons.prems(1) by (subst (asm) k) simp
    have "hourly_loop tz index (d # ds) st =
        hourly_loop tz (Suc index) ds (st\<lparr>hourly_section := (ul @ [hourlyLi tz d w]) # cs\<rparr>)"
      using False w Cons.prems(2) by simp
    also have "\<dots> = Inr (st\<lparr>hourly_section := (ul @ [hourlyLi tz d w]) # cs\<rparr>\<lparr>hourly_section :=
        ((ul @ [hourlyLi tz d w]) @ map (\<lambda>d. hourlyLi tz d (hd (fe_weather d)))
           (take (8 - Suc index) ds)) # cs\<rparr>)"
      by (rule Cons.IH[OF rest]) simp
    also have "\<dots> = Inr (st\<lparr>hourly_section :=
        (ul @ map (\<lambda>d. hourlyLi tz d (hd (fe_weather d))) (take (8 - index) (d # ds))) # cs\<rparr>)"
      using w by (subst k) simp
    finally show ?thesis .
  qed
qed

lemma mod8_gap: "Suc i \<le> j \<Longrightarrow> j < i + 8 \<Longrightarrow> \<not> j mod 8 = i mod (8::nat)"
proof
  assume a: "Suc i \<le> j" "j < i + 8" "j mod 8 = i mod 8"
  have "i \<le> j" using a(1) by simp
  then have "8 dvd j - i" using a(3) by (simp add: mod_eq_dvd_iff_nat)
  moreover have "0 < j - i" "j - i < 8" using a(1,2) by simp_all
  ultimately show False using nat_dvd_not_less by blast
qed

lemma filter_upt_skip:
  assumes "a \<le> b" and "\<And>j. a \<le> j \<Longrightarrow> j < b \<Longrightarrow> \<not> P j"
  shows "filter P [a..<n] = filter P [b..<n]"
proof (cases "b \<le> n")
  case True
  then obtain k where k: "n = b + k" using le_iff_add by blast
  have "[a..<n] = [a..<b] @ [b..<n]"
    unfolding k using assms(1) by (rule upt_add_eq_append)
  moreover have "filter P [a..<b] = []" using assms(2) by (simp add: filter_empty_conv)
  ultimately show ?thesis by simp
next
  case False
  have f: "filter P [a..<n] = []" using assms(2) False by (simp add: filter_empty_conv)
  have e: "[b..<n] = []" using False by simp
  show ?thesis unfolding f e by simp
qed

lemma sampled_unfold: "i < n \<Longrightarrow> sampled i n = i # sampled (i + 8) n"
proof -
  assume i: "i < n"
  have "filter (\<lambda>j. j mod 8 = i mod 8) [Suc i..<n] = filter (\<lambda>j. j mod 8 = i mod 8) [i + 8..<n]"
  proof (rule filter_upt_skip)
    show "Suc i \<le> i + 8" by simp
  next
    fix j assume "Suc i \<le> j" "j < i + 8"
    then show "\<not> j mod 8 = i mod 8" by (rule mod8_gap)
  qed
  then show ?thesis using i by (simp add: sampled_def upt_conv_Cons)
qed

lemma sampled_empty: "\<not> i < n \<Longrightarrow> sampled i n = []"
  by (simp add: sampled_def)

lemma sampled_7: "sampled 7 n = filter (\<lambda>j. j mod 8 = 7) [0..<n]"
proof -
  have "filter (\<lambda>j. j mod 8 = 7) [0..<n] = filter (\<lambda>j. j mod 8 = 7) [7..<n]"
    by (rule filter_upt_skip) auto
  then show ?thesis by (simp add: sampled_def)
qed

lemma daily_loop_ok:
  "\<forall>d \<in> set forecastList. fe_weather d \<noteq> [] \<Longrightarrow> forecast_section st = ul # cs \<Longrightarrow>
   daily_loop i forecastList st =
     Inr (st\<lparr>forecast_section :=
        (ul @ map (\<lambda>j. dailyLi (forecastList ! j) (hd (fe_weather (forecastList ! j))))
                (sampled i (length forecastList))) # cs\<rparr>)"
proof (induction i forecastList st arbitrary: ul rule: daily_loop.induct)
  case (1 i forecastList st)
  show ?case
  proof (cases "i < length forecastList")
    case False
    then show ?thesis using "1.prems"(2) by (subst daily_loop.simps) (simp add: sampled_empty)
  next
    case True
    then have "fe_weather (forecastList ! i) \<noteq> []" using "1.prems"(1) by simp
    then obtain w ws where w: "fe_weather (forecastList ! i) = w # ws"
      by (cases "fe_weather (forecastList ! i)") auto
    let ?st = "st\<lparr>forecast_section := (ul @ [dailyLi (forecastList ! i) w]) # cs\<rparr>"
    have "daily_loop i forecastList st = daily_loop (i + 8) forecastList ?st"
      using True w "1.prems"(2) by (subst daily_loop.simps) simp
    also have "\<dots> = Inr (?st\<lparr>forecast_section :=
        ((ul @ [dailyLi (forecastList ! i) w])
         @ map (\<lambda>j. dailyLi (forecastList ! j) (hd (fe_weather (forecastList ! j))))
             (sampled (i + 8) (length forecastList))) # cs\<rparr>)"
      by (rule "1.IH"[OF True w "1.prems"(2) "1.prems"(1)]) simp
    also have "\<dots> = Inr (st\<lparr>forecast_section :=
        (ul @ map (\<lambda>j. dailyLi (forecastList ! j) (hd (fe_weather (forecastList ! j))))
                (sampled i (length forecastList))) # cs\<rparr>)"
      using w by (simp add: sampled_unfold[OF True])
    finally show ?thesis .
  qed
qed

lemma take_8_nth: "take 8 xs = map ((!) xs) [0..<min 8 (length xs)]"
  by (rule nth_equalityI) auto

text \<open>
  The forecast callback on a list whose entries all carry a weather element: it runs to
  its end, and this is the state it leaves.
\<close>

lemma forecastCb_ok:
  assumes wf: "\<forall>d \<in> set (fc_list fc). fe_weather d \<noteq> []"
  shows "forecastCb r lat lon cw fc st =
     Inr ((fetchData (AirPollution lat lon) (AirPollutionCb r cw (fc_timezone fc)) st)
        \<lparr>hourly_section :=
           [map (\<lambda>d. hourlyLi (fc_timezone fc) d (hd (fe_weather d))) (take 8 (fc_list fc))],
         forecast_section :=
           [map (\<lambda>j. dailyLi (fc_list fc ! j) (hd (fe_weather (fc_list fc ! j))))
              (sampled 7 (length (fc_list fc)))],
         loading_active := False,
         container_overflowY := ''overlay'',
         container_fade_in := True\<rparr>)"
proof -
  have h: "\<forall>d \<in> set (take (8 - 0) (fc_list fc)). fe_weather d \<noteq> []"
    using wf by (auto dest: in_set_takeD)
  have hl: "hourly_loop (fc_timezone fc) 0 (fc_list fc) (st\<lparr>hourly_section := [[]]\<rparr>) =
      Inr (st\<lparr>hourly_section := [[]]\<rparr>\<lparr>hourly_section :=
        ([] @ map (\<lambda>d. hourlyLi (fc_timezone fc) d (hd (fe_weather d)))
                (take (8 - 0) (fc_list fc))) # []\<rparr>)"
    by (rule hourly_loop_ok[OF h]) simp
  show ?thesis
    unfolding forecastCb_def Let_def hl and_then_def
    by (simp add: daily_loop_ok[OF wf, where ul = "[]" and cs = "[]"] fetchData_def)
qed

subsection \<open>What a callback can do to the state\<close>

lemma search_loop_frame:
  "\<exists>sr. result_state (search_loop ls st) = st\<lparr>search_result := sr\<rparr>"
proof (induction ls arbitrary: st)
  case Nil
  show ?case by (rule exI[of _ "search_result st"]) simp
next
  case (Cons l ls)
  show ?case
  proof (cases "search_result st")
    case Nil
    then have "result_state (search_loop (l # ls) st) = st" by simp
    then show ?thesis by (intro exI[of _ "search_result st"]) simp
  next
    case (Cons ul cs)
    obtain sr where "result_state (search_loop ls (st\<lparr>search_result := (ul @ [searchItem l]) # cs\<rparr>))
        = st\<lparr>search_result := (ul @ [searchItem l]) # cs\<rparr>\<lparr>search_result := sr\<rparr>"
      using Cons.IH by blast
    then have "result_state (search_loop (l # ls) st) = st\<lparr>search_result := sr\<rparr>"
      using Cons by simp
    then show ?thesis by (rule exI)
  qed
qed

lemma error_is_TypeError: "(e::error) = TypeError"
  by (cases e) simp

lemma settle_shape:
  "settle r = result_state r \<or> settle r = (result_state r)\<lparr>uncaught := uncaught (result_state r) @ [TypeError]\<rparr>"
proof (cases r)
  case (Inl x)
  then show ?thesis by (cases x) (simp add: error_is_TypeError)
next
  case (Inr s)
  then show ?thesis by simp
qed

lemma hourly_loop_result:
  "hourly_section st = ul # cs \<Longrightarrow>
   (\<exists>hs. hourly_loop tz index ds st = Inl (TypeError, st\<lparr>hourly_section := hs\<rparr>)) \<or>
   (\<exists>items. length items \<le> 8 - index \<and>
      hourly_loop tz index ds st = Inr (st\<lparr>hourly_section := (ul @ items) # cs\<rparr>))"
proof (induction ds arbitrary: index st ul)
  case Nil
  then have "hourly_loop tz index [] st = Inr (st\<lparr>hourly_section := (ul @ []) # cs\<rparr>)" by simp
  then show ?case by (intro disjI2 exI[of _ "[]"]) simp
next
  case (Cons d ds)
  show ?case
  proof (cases "index > 7")
    case True
    then have "hourly_loop tz index (d # ds) st = Inr (st\<lparr>hourly_section := (ul @ []) # cs\<rparr>)"
      using Cons.prems by simp
    then show ?thesis by (intro disjI2 exI[of _ "[]"]) simp
  next
    case False
    show ?thesis
    proof (cases "fe_weather d")
      case Nil
      then have "hourly_loop tz index (d # ds) st = Inl (TypeError, st\<lparr>hourly_section := hourly_section st\<rparr>)"
        using False by simp
      then show ?thesis by blast
    next
      case w: (Cons w ws)
      let ?st = "st\<lparr>hourly_section := (ul @ [hourlyLi tz d w]) # cs\<rparr>"
      have step: "hourly_loop tz index (d # ds) st = hourly_loop tz (Suc index) ds ?st"
        using False w Cons.prems by simp
      have "hourly_section ?st = (ul @ [hourlyLi tz d w]) # cs" by simp
      from Cons.IH[OF this, of "Suc index"]
      show ?thesis
      proof
        assume "\<exists>hs. hourly_loop tz (Suc index) ds ?st = Inl (TypeError, ?st\<lparr>hourly_section := hs\<rparr>)"
        then obtain hs where "hourly_loop tz index (d # ds) st = Inl (TypeError, st\<lparr>hourly_section := hs\<rparr>)"
          using step by auto
        then show ?thesis by blast
      next
        assume "\<exists>items. length items \<le> 8 - Suc index \<and>
          hourly_loop tz (Suc index) ds ?st = Inr (?st\<lparr>hourly_section := ((ul @ [hourlyLi tz d w]) @ items) # cs\<rparr>)"
        then obtain items where i: "length items \<le> 8 - Suc index"
          and r: "hourly_loop tz index (d # ds) st
                = Inr (st\<lparr>hourly_section := (ul @ (hourlyLi tz d w # items)) # cs\<rparr>)"
          using step by auto
        have "length (hourlyLi tz d w # items) \<le> 8 - index" using i False by simp
        then show ?thesis using r by blast
      qed
    qed
  qed
qed

lemma daily_loop_result:
  "forecast_section st = ul # cs \<Longrightarrow>
   (\<exists>fs. daily_loop i forecastList st = Inl (TypeError, st\<lparr>forecast_section := fs\<rparr>)) \<or>
   (\<exists>items. daily_loop i forecastList st = Inr (st\<lparr>forecast_section := (ul @ items) # cs\<rparr>))"
proof (induction i forecastList st arbitrary: ul rule: daily_loop.induct)
  case (1 i forecastList st)
  show ?case
  proof (cases "i < length forecastList")
    case False
    then have "daily_loop i forecastList st = Inr (st\<lparr>forecast_section := (ul @ []) # cs\<rparr>)"
      using "1.prems" by (subst daily_loop.simps) simp
    then show ?thesis by blast
  next
    case True
    show ?thesis
    proof (cases "fe_weather (forecastList ! i)")
      case Nil
      then have "daily_loop i forecastList st = Inl (TypeError, st\<lparr>forecast_section := forecast_section st\<rparr>)"
        using True by (subst daily_loop.simps) simp
      then show ?thesis by blast
    next
      case w: (Cons w ws)
      let ?st = "st\<lparr>forecast_section := (ul @ [dailyLi (forecastList ! i) w]) # cs\<rparr>"
      have step: "daily_loop i forecastList st = daily_loop (i + 8) forecastList ?st"
        using True w "1.prems" by (subst daily_loop.simps) simp
      have "forecast_section ?st = (ul @ [dailyLi (forecastList ! i) w]) # cs" by simp
      from "1.IH"[OF True w "1.prems" this]
      show ?thesis
      proof
        assume "\<exists>fs. daily_loop (i + 8) forecastList ?st = Inl (TypeError, ?st\<lparr>forecast_section := fs\<rparr>)"
        then obtain fs where "daily_loop i forecastList st = Inl (TypeError, st\<lparr>forecast_section := fs\<rparr>)"
          using step by auto
        then show ?thesis by blast
      next
        assume "\<exists>items. daily_loop (i + 8) forecastList ?st
           = Inr (?st\<lparr>forecast_section := ((ul @ [dailyLi (forecastList ! i) w]) @ items) # cs\<rparr>)"
        then obtain items where "daily_loop i forecastList st
                = Inr (st\<lparr>forecast_section := (ul @ (dailyLi (forecastList ! i) w # items)) # cs\<rparr>)"
          using step by auto
        then show ?thesis by blast
      qed
    qed
  qed
qed

lemma fetchData_hourly:
  "fetchData u cb (st\<lparr>hourly_section := h\<rparr>) = (fetchData u cb st)\<lparr>hourly_section := h\<rparr>"
  by (rule state.equality) (simp_all add: fetchData_def)

lemma forecastCb_cases:
  obtains (hourly_throws) hs where
      "forecastCb r lat lon cw fc st = Inl (TypeError, st\<lparr>hourly_section := hs\<rparr>)"
  | (daily_throws) items fs where "length items \<le> 8"
      "forecastCb r lat lon cw fc st =
         Inl (TypeError, (fetchData (AirPollution lat lon) (AirPollutionCb r cw (fc_timezone fc)) st)
               \<lparr>hourly_section := [items], forecast_section := fs\<rparr>)"
  | (completes) items ds where "length items \<le> 8"
      "forecastCb r lat lon cw fc st =
         Inr ((fetchData (AirPollution lat lon) (AirPollutionCb r cw (fc_timezone fc)) st)
               \<lparr>hourly_section := [items], forecast_section := [ds],
                loading_active := False, container_overflowY := ''overlay'',
                container_fade_in := True\<rparr>)"
proof -
  let ?st1 = "st\<lparr>hourly_section := [[]]\<rparr>"
  let ?air = "fetchData (AirPollution lat lon) (AirPollutionCb r cw (fc_timezone fc))"
  have "hourly_section ?st1 = [] # []" by simp
  from hourly_loop_result[OF this, of "fc_timezone fc" 0 "fc_list fc"]
  show thesis
  proof
    assume "\<exists>hs. hourly_loop (fc_timezone fc) 0 (fc_list fc) ?st1 = Inl (TypeError, ?st1\<lparr>hourly_section := hs\<rparr>)"
    then obtain hs where "hourly_loop (fc_timezone fc) 0 (fc_list fc) ?st1 = Inl (TypeError, st\<lparr>hourly_section := hs\<rparr>)"
      by auto
    then have "forecastCb r lat lon cw fc st = Inl (TypeError, st\<lparr>hourly_section := hs\<rparr>)"
      by (simp add: forecastCb_def Let_def and_then_def)
    then show thesis by (rule hourly_throws)
  next
    assume "\<exists>items. length items \<le> 8 - 0 \<and> hourly_loop (fc_timezone fc) 0 (fc_list fc) ?st1
             = Inr (?st1\<lparr>hourly_section := ([] @ items) # []\<rparr>)"
    then obtain items where len: "length items \<le> 8"
      and h: "hourly_loop (fc_timezone fc) 0 (fc_list fc) ?st1 = Inr (st\<lparr>hourly_section := [items]\<rparr>)"
      by auto
    let ?st4 = "(?air st)\<lparr>hourly_section := [items], forecast_section := [[]]\<rparr>"
    have f: "forecastCb r lat lon cw fc st =
        and_then (daily_loop 7 (fc_list fc) ?st4) (\<lambda>st5.
                Inr (st5\<lparr>loading_active := False,
                         container_overflowY := ''overlay'',
                         container_fade_in := True\<rparr>))"
      using h by (simp add: forecastCb_def Let_def and_then_def fetchData_hourly)
    have "forecast_section ?st4 = [] # []" by simp
    from daily_loop_result[OF this, of 7 "fc_list fc"]
    show thesis
    proof
      assume "\<exists>fs. daily_loop 7 (fc_list fc) ?st4 = Inl (TypeError, ?st4\<lparr>forecast_section := fs\<rparr>)"
      then obtain fs where "daily_loop 7 (fc_list fc) ?st4
           = Inl (TypeError, (?air st)\<lparr>hourly_section := [items], forecast_section := fs\<rparr>)"
        by auto
      then have "forecastCb r lat lon cw fc st =
         Inl (TypeError, (?air st)\<lparr>hourly_section := [items], forecast_section := fs\<rparr>)"
        unfolding f by (simp add: and_then_def)
      then show thesis using len by (intro daily_throws)
    next
      assume "\<exists>ds. daily_loop 7 (fc_list fc) ?st4 = Inr (?st4\<lparr>forecast_section := ([] @ ds) # []\<rparr>)"
      then obtain ds where "daily_loop 7 (fc_list fc) ?st4
           = Inr ((?air st)\<lparr>hourly_section := [items], forecast_section := [ds]\<rparr>)"
        by auto
      then have "forecastCb r lat lon cw fc st =
         Inr ((?air st)\<lparr>hourly_section := [items], forecast_section := [ds],
                loading_active := False, container_overflowY := ''overlay'',
                container_fade_in := True\<rparr>)"
        unfolding f by (simp add: and_then_def)
      then show thesis using len by (intro completes)
    qed
  qed
qed

lemma geoCb_open_settle:
  assumes "result_state r = (geoCb_open st)\<lparr>search_result := sr\<rparr>"
  shows "\<exists>u. (u = uncaught st \<or> u = uncaught st @ [TypeError]) \<and>
     settle r = st\<lparr>search_field_searching := False, search_result_active := True,
                    search_result := sr, uncaught := u\<rparr>"
proof -
  from settle_shape[of r]
  show ?thesis
  proof
    assume "settle r = result_state r"
    then have "settle r = st\<lparr>search_field_searching := False, search_result_active := True,
                    search_result := sr, uncaught := uncaught st\<rparr>"
      using assms by (simp add: geoCb_open_def)
    then show ?thesis by blast
  next
    assume "settle r = (result_state r)\<lparr>uncaught := uncaught (result_state r) @ [TypeError]\<rparr>"
    then have "settle r = st\<lparr>search_field_searching := False, search_result_active := True,
                    search_result := sr, uncaught := uncaught st @ [TypeError]\<rparr>"
      using assms by (simp add: geoCb_open_def)
    then show ?thesis by blast
  qed
qed

lemma invoke_cases:
  obtains (throws)
      "settle (invoke cb body st) = st\<lparr>uncaught := uncaught st @ [TypeError]\<rparr>"
  | (geo) sr u where "cb = GeoCb" "u = uncaught st \<or> u = uncaught st @ [TypeError]"
      "settle (invoke cb body st) =
         st\<lparr>search_field_searching := False, search_result_active := True,
            search_result := sr, uncaught := u\<rparr>"
  | (current) r lat lon cw w where "cb = CurrentWeatherCb r lat lon"
      "settle (invoke cb body st) =
         st\<lparr>cards := cards st @ [now_card_of cw w],
            current_weather_section := current_weather_section st @ [length (cards st)],
            pending := pending st @
              [\<lparr>req_url = ReverseGeo lat lon, req_cb = ReverseGeoCb r (length (cards st))\<rparr>,
               \<lparr>req_url = Forecast lat lon, req_cb = ForecastCb r lat lon cw\<rparr>],
            fetch_log := fetch_log st @
              [Issued (Run r) (ReverseGeo lat lon), Issued (Run r) (Forecast lat lon)]\<rparr>"
  | (reverse) r a cs where "cb = ReverseGeoCb r a"
      "settle (invoke cb body st) = st\<lparr>cards := cs\<rparr>"
  | (forecast_hourly_throws) r lat lon cw hs where "cb = ForecastCb r lat lon cw"
      "settle (invoke cb body st) =
         st\<lparr>hourly_section := hs, uncaught := uncaught st @ [TypeError]\<rparr>"
  | (forecast_daily_throws) r lat lon cw tz items fs where "cb = ForecastCb r lat lon cw"
      "settle (invoke cb body st) =
         st\<lparr>hourly_section := [items], forecast_section := fs,
            pending := pending st @
              [\<lparr>req_url = AirPollution lat lon, req_cb = AirPollutionCb r cw tz\<rparr>],
            fetch_log := fetch_log st @ [Issued (Run r) (AirPollution lat lon)],
            uncaught := uncaught st @ [TypeError]\<rparr>"
  | (forecast) r lat lon cw tz items ds where "cb = ForecastCb r lat lon cw" "length items \<le> 8"
      "settle (invoke cb body st) =
         st\<lparr>hourly_section := [items], forecast_section := [ds],
            loading_active := False, container_overflowY := ''overlay'',
            container_fade_in := True,
            pending := pending st @
              [\<lparr>req_url = AirPollution lat lon, req_cb = AirPollutionCb r cw tz\<rparr>],
            fetch_log := fetch_log st @ [Issued (Run r) (AirPollution lat lon)]\<rparr>"
  | (air) r cw tz c where "cb = AirPollutionCb r cw tz"
      "settle (invoke cb body st) = st\<lparr>highlight_section := highlight_section st @ [c]\<rparr>"
proof (cases cb)
  case GeoCb
  have "\<exists>sr. result_state (invoke GeoCb body st) = (geoCb_open st)\<lparr>search_result := sr\<rparr>"
  proof (cases body)
    case (RLocations ls)
    then show ?thesis using search_loop_frame[of ls "geoCb_open st"] by (simp add: geoCb_def)
  next
    case (RCurrentWeather x)
    have "geoCb_open st = (geoCb_open st)\<lparr>search_result := search_result (geoCb_open st)\<rparr>" by simp
    then show ?thesis using RCurrentWeather by (intro exI[of _ "search_result (geoCb_open st)"]) simp
  next
    case (RForecast x)
    have "geoCb_open st = (geoCb_open st)\<lparr>search_result := search_result (geoCb_open st)\<rparr>" by simp
    then show ?thesis using RForecast by (intro exI[of _ "search_result (geoCb_open st)"]) simp
  next
    case (RAirPollution x)
    have "geoCb_open st = (geoCb_open st)\<lparr>search_result := search_result (geoCb_open st)\<rparr>" by simp
    then show ?thesis using RAirPollution by (intro exI[of _ "search_result (geoCb_open st)"]) simp
  qed
  then obtain sr where "result_state (invoke GeoCb body st) = (geoCb_open st)\<lparr>search_result := sr\<rparr>"
    by blast
  from geoCb_open_settle[OF this] GeoCb show thesis by (auto intro: geo)
next
  case (CurrentWeatherCb r lat lon)
  show thesis
  proof (cases "\<exists>cw w ws. body = RCurrentWeather cw \<and> cw_weather cw = w # ws")
    case False
    then have "settle (invoke cb body st) = st\<lparr>uncaught := uncaught st @ [TypeError]\<rparr>"
      using CurrentWeatherCb
      by (cases body) (auto simp add: currentWeatherCb_def split: list.splits)
    then show thesis by (rule throws)
  next
    case True
    then obtain cw w ws where b: "body = RCurrentWeather cw" "cw_weather cw = w # ws" by blast
    have "settle (invoke cb body st) =
         st\<lparr>cards := cards st @ [now_card_of cw w],
            current_weather_section := current_weather_section st @ [length (cards st)],
            pending := pending st @
              [\<lparr>req_url = ReverseGeo lat lon, req_cb = ReverseGeoCb r (length (cards st))\<rparr>,
               \<lparr>req_url = Forecast lat lon, req_cb = ForecastCb r lat lon cw\<rparr>],
            fetch_log := fetch_log st @
              [Issued (Run r) (ReverseGeo lat lon), Issued (Run r) (Forecast lat lon)]\<rparr>"
      using CurrentWeatherCb b
      by (simp add: currentWeatherCb_def Let_def fetchData_def)
    then show thesis using CurrentWeatherCb by (intro current)
  qed
next
  case (ReverseGeoCb r a)
  show thesis
  proof (cases "\<exists>l ls. body = RLocations (l # ls)")
    case False
    then have "settle (invoke cb body st) = st\<lparr>uncaught := uncaught st @ [TypeError]\<rparr>"
      using ReverseGeoCb
      by (cases body) (auto simp add: reverseGeoCb_def split: list.splits)
    then show thesis by (rule throws)
  next
    case True
    then obtain l ls where b: "body = RLocations (l # ls)" by blast
    have "settle (invoke cb body st) = st\<lparr>cards := (cards st)
                 [a := (cards st ! a)\<lparr>nc_location := Some (loc_name l, loc_country l)\<rparr>]\<rparr>"
      using ReverseGeoCb b by (simp add: reverseGeoCb_def)
    then show thesis using ReverseGeoCb by (intro reverse)
  qed
next
  case (ForecastCb r lat lon cw)
  show thesis
  proof (cases "\<exists>fc. body = RForecast fc")
    case False
    then have "settle (invoke cb body st) = st\<lparr>uncaught := uncaught st @ [TypeError]\<rparr>"
      using ForecastCb by (cases body) auto
    then show thesis by (rule throws)
  next
    case True
    then obtain fc where b: "body = RForecast fc" by blast
    have i: "invoke cb body st = forecastCb r lat lon cw fc st"
      using ForecastCb b by simp
    show thesis
    proof (cases rule: forecastCb_cases[of r lat lon cw fc st])
      case (hourly_throws hs)
      have "settle (invoke cb body st) = st\<lparr>hourly_section := hs, uncaught := uncaught st @ [TypeError]\<rparr>"
        unfolding i hourly_throws by simp
      then show ?thesis using ForecastCb by (intro forecast_hourly_throws)
    next
      case (daily_throws items fs)
      have "settle (invoke cb body st) =
         st\<lparr>hourly_section := [items], forecast_section := fs,
            pending := pending st @
              [\<lparr>req_url = AirPollution lat lon, req_cb = AirPollutionCb r cw (fc_timezone fc)\<rparr>],
            fetch_log := fetch_log st @ [Issued (Run r) (AirPollution lat lon)],
            uncaught := uncaught st @ [TypeError]\<rparr>"
        unfolding i daily_throws(2) by (simp add: fetchData_def)
      then show ?thesis using ForecastCb by (intro forecast_daily_throws)
    next
      case (completes items ds)
      have "settle (invoke cb body st) =
         st\<lparr>hourly_section := [items], forecast_section := [ds],
            loading_active := False, container_overflowY := ''overlay'',
            container_fade_in := True,
            pending := pending st @
              [\<lparr>req_url = AirPollution lat lon, req_cb = AirPollutionCb r cw (fc_timezone fc)\<rparr>],
            fetch_log := fetch_log st @ [Issued (Run r) (AirPollution lat lon)]\<rparr>"
        unfolding i completes(2) by (simp add: fetchData_def)
      then show ?thesis using ForecastCb completes(1) by (intro forecast)
    qed
  qed
next
  case (AirPollutionCb r cw tz)
  show thesis
  proof (cases "\<exists>ap a as. body = RAirPollution ap \<and> ap_list ap = a # as \<and> aqiText_has (aqi a)")
    case False
    then have "settle (invoke cb body st) = st\<lparr>uncaught := uncaught st @ [TypeError]\<rparr>"
      using AirPollutionCb
      by (cases body) (auto simp add: airPollutionCb_def split: list.splits)
    then show thesis by (rule throws)
  next
    case True
    then obtain ap a as where b: "body = RAirPollution ap" "ap_list ap = a # as" "aqiText_has (aqi a)"
      by blast
    have "settle (invoke cb body st) =
        st\<lparr>highlight_section := highlight_section st @ [highlight_card_of cw tz a]\<rparr>"
      using AirPollutionCb b by (simp add: airPollutionCb_def)
    then show thesis using AirPollutionCb by (intro air)
  qed
qed

lemma timers_fire:
  "foldl (\<lambda>s p. searchTimerCb s) st due =
     st\<lparr>pending := pending st @
          replicate (length due) \<lparr>req_url = Geo (search_field_value st), req_cb = GeoCb\<rparr>,
        fetch_log := fetch_log st @
          replicate (length due) (Issued Search (Geo (search_field_value st)))\<rparr>"
proof (induction due arbitrary: st)
  case Nil
  show ?case by simp
next
  case (Cons p due)
  show ?case
    unfolding foldl_Cons Cons.IH
    by (rule state.equality) (simp_all add: searchTimerCb_def fetchData_def replicate_append_same)
qed

lemma elapse_shape:
  "\<exists>ts k. elapse n st =
     st\<lparr>clock := clock st + n, timers := ts,
        pending := pending st @
          replicate k \<lparr>req_url = Geo (search_field_value st), req_cb = GeoCb\<rparr>,
        fetch_log := fetch_log st @ replicate k (Issued Search (Geo (search_field_value st)))\<rparr>"
proof -
  let ?due = "filter (\<lambda>p. snd p \<le> clock st + n) (timers st)"
  have "elapse n st =
     st\<lparr>clock := clock st + n, timers := filter (\<lambda>p. \<not> snd p \<le> clock st + n) (timers st),
        pending := pending st @
          replicate (length ?due) \<lparr>req_url = Geo (search_field_value st), req_cb = GeoCb\<rparr>,
        fetch_log := fetch_log st @
          replicate (length ?due) (Issued Search (Geo (search_field_value st)))\<rparr>"
    unfolding elapse_def Let_def timers_fire by simp
  then show ?thesis by blast
qed

lemma respond_eq:
  "i < length (pending st) \<Longrightarrow>
   respond i body st =
     settle (invoke (req_cb (pending st ! i)) body
       (st\<lparr>pending := remove_nth i (pending st),
           fetch_log := fetch_log st @
             [Completed (origin_of (req_cb (pending st ! i))) (req_url (pending st ! i))]\<rparr>))"
  by (simp add: respond_def Let_def)

lemma respond_idle: "\<not> i < length (pending st) \<Longrightarrow> respond i body st = st"
  by (simp add: respond_def)

text \<open>The forecast callback on the sample forecast.\<close>

lemma sample_forecast_facts:
  "\<forall>d \<in> set (fc_list sample_forecast). fe_weather d \<noteq> []"
  "length (fc_list sample_forecast) = 16"
  "fc_timezone sample_forecast = 19800"
  "fc_list sample_forecast ! 7 = sample_entry 7 ''2024-01-01 07:00:00'' sample_weather"
  "fc_list sample_forecast ! 15 = sample_entry 15 ''2024-01-01 15:00:00'' clear_sky"
  by (simp_all add: sample_forecast_def sample_entry_def)

lemma sampled_7_16: "sampled 7 16 = [7, 15]"
  by (simp add: sampled_unfold sampled_empty)

lemma sample_forecastCb:
  "forecastCb r lat lon cw sample_forecast st =
     Inr (st\<lparr>hourly_section :=
             [map (\<lambda>d. hourlyLi 19800 d (hd (fe_weather d))) (take 8 (fc_list sample_forecast))],
           forecast_section :=
             [[dailyLi (sample_entry 7 ''2024-01-01 07:00:00'' sample_weather) sample_weather,
               dailyLi (sample_entry 15 ''2024-01-01 15:00:00'' clear_sky) clear_sky]],
           loading_active := False,
           container_overflowY := ''overlay'',
           container_fade_in := True,
           pending := pending st @
             [\<lparr>req_url = AirPollution lat lon, req_cb = AirPollutionCb r cw 19800\<rparr>],
           fetch_log := fetch_log st @ [Issued (Run r) (AirPollution lat lon)]\<rparr>)"
proof -
  have w: "hd (fe_weather (sample_entry 7 ''2024-01-01 07:00:00'' sample_weather)) = sample_weather"
    "hd (fe_weather (sample_entry 15 ''2024-01-01 15:00:00'' clear_sky)) = clear_sky"
    by (simp_all add: sample_entry_def)
  show ?thesis
    unfolding forecastCb_ok[OF sample_forecast_facts(1)] sample_forecast_facts(2,3) sampled_7_16
    by (rule arg_cong[of _ _ Inr], rule state.equality)
       (simp_all add: fetchData_def w sample_forecast_facts(4,5))
qed

subsection \<open>The icon of an entry\<close>

text \<open>
  C2: every rendered weather entry (the "now" card, each hourly entry, each daily entry)
  whose description is "broken clouds" shows the icon "04.0d", whatever icon code the
  response gives; every other entry shows the icon code of the response unchanged. The
  description and the icon code are those of the first weather element of the entry, and
  the entries are read off the page that the callbacks leave.
\<close>

theorem icon_override:
  assumes "cw_weather cw = w # ws" and "\<forall>d \<in> set (fc_list fc). fe_weather d \<noteq> []"
  shows "(\<exists>st1. currentWeatherCb r lat lon cw st = Inr st1 \<and>
            nc_icon (cards st1 ! last (current_weather_section st1)) =
              (if description w = ''broken clouds'' then ''04.0d'' else icon w)) \<and>
         (\<exists>st2. forecastCb r lat lon cw' fc st = Inr st2 \<and>
            map hi_icon (concat (hourly_section st2)) =
              map (\<lambda>d. if description (hd (fe_weather d)) = ''broken clouds'' then ''04.0d''
                        else icon (hd (fe_weather d)))
                (take 8 (fc_list fc)) \<and>
            map di_icon (concat (forecast_section st2)) =
              map (\<lambda>i. if description (hd (fe_weather (fc_list fc ! i))) = ''broken clouds''
                        then ''04.0d'' else icon (hd (fe_weather (fc_list fc ! i))))
                (filter (\<lambda>i. i mod 8 = 7) [0..<length (fc_list fc)]))"
proof
  show "\<exists>st1. currentWeatherCb r lat lon cw st = Inr st1 \<and>
            nc_icon (cards st1 ! last (current_weather_section st1)) =
              (if description w = ''broken clouds'' then ''04.0d'' else icon w)"
    using assms(1)
    by (simp add: currentWeatherCb_def Let_def fetchData_def now_card_of_def weatherIcon_def)
next
  show "\<exists>st2. forecastCb r lat lon cw' fc st = Inr st2 \<and>
            map hi_icon (concat (hourly_section st2)) =
              map (\<lambda>d. if description (hd (fe_weather d)) = ''broken clouds'' then ''04.0d''
                        else icon (hd (fe_weather d)))
                (take 8 (fc_list fc)) \<and>
            map di_icon (concat (forecast_section st2)) =
              map (\<lambda>i. if description (hd (fe_weather (fc_list fc ! i))) = ''broken clouds''
                        then ''04.0d'' else icon (hd (fe_weather (fc_list fc ! i))))
                (filter (\<lambda>i. i mod 8 = 7) [0..<length (fc_list fc)])"
    by (simp add: forecastCb_ok[OF assms(2)] sampled_7 hourlyLi_def dailyLi_def weatherIcon_def o_def)
qed

theorem icon_override_witness:
  "(\<exists>st1. currentWeatherCb 0 23 90 sample_current initial = Inr st1 \<and>
       nc_icon (cards st1 ! last (current_weather_section st1)) = ''04.0d'') \<and>
   (\<exists>st2. forecastCb 0 23 90 sample_current sample_forecast initial = Inr st2 \<and>
       map hi_icon (concat (hourly_section st2))
         = [''01d'', ''01d'', ''01d'', ''01d'', ''01d'', ''01d'', ''01d'', ''04.0d''] \<and>
       map di_icon (concat (forecast_section st2)) = [''04.0d'', ''01d''])"
proof -
  have c: "cw_weather sample_current = sample_weather # []"
    by (simp add: sample_current_def)
  have s: "filter (\<lambda>i. i mod 8 = 7) [0..<16] = [7, 15::nat]"
    using sampled_7[of 16] by (simp add: sampled_7_16)
  have h: "map (\<lambda>d. if description (hd (fe_weather d)) = ''broken clouds'' then ''04.0d''
                        else icon (hd (fe_weather d)))
                (take 8 (fc_list sample_forecast))
      = [''01d'', ''01d'', ''01d'', ''01d'', ''01d'', ''01d'', ''01d'', ''04.0d'']"
    by (simp add: sample_forecast_def sample_entry_def sample_weather_def clear_sky_def)
  show ?thesis
    using icon_override[OF c sample_forecast_facts(1), of 0 23 90 initial sample_current]
    unfolding sample_forecast_facts(2) s h
    by (simp add: sample_forecast_facts(4,5) sample_weather_def clear_sky_def sample_entry_def)
qed

subsection \<open>The hourly and the daily list\<close>

text \<open>
  C3: for every forecast list (each entry carrying a weather element, as the responses of
  the API do), the forecast callback runs to its end, the hourly card holds
  \<open>min 8 (length list)\<close> entries, and they are the renderings of the elements at the
  indices 0 to 7, in this order.
\<close>

theorem hourly_entries_first_eight:
  assumes "\<forall>d \<in> set (fc_list fc). fe_weather d \<noteq> []"
  shows "\<exists>st'. forecastCb r lat lon cw fc st = Inr st' \<and>
     hourly_section st' =
       [map (\<lambda>i. hourlyLi (fc_timezone fc) (fc_list fc ! i) (hd (fe_weather (fc_list fc ! i))))
          [0..<min 8 (length (fc_list fc))]] \<and>
     length (concat (hourly_section st')) = min 8 (length (fc_list fc))"
  by (simp add: forecastCb_ok[OF assms] take_8_nth[of "fc_list fc"] o_def)

theorem hourly_entries_first_eight_witness:
  "\<exists>st'. forecastCb 0 23 90 sample_current sample_forecast initial = Inr st' \<and>
     map hi_time (concat (hourly_section st'))
       = [(1704067200, 19800), (1704070800, 19800), (1704074400, 19800), (1704078000, 19800),
          (1704081600, 19800), (1704085200, 19800), (1704088800, 19800), (1704092400, 19800)] \<and>
     length (concat (hourly_section st')) = 8"
proof -
  have m: "min 8 (length (fc_list sample_forecast)) = 8"
    by (simp add: sample_forecast_facts(2))
  have u: "[0..<8] = [0, 1, 2, 3, 4, 5, 6, 7::nat]"
    by (simp add: upt_rec)
  show ?thesis
    using hourly_entries_first_eight[OF sample_forecast_facts(1), of 0 23 90 sample_current initial]
    unfolding m u
    by (auto simp add: sample_forecast_def sample_entry_def hourlyLi_def)
qed

text \<open>Under the three-hour spacing, the element \<open>i\<close> is \<open>10800 * i\<close> seconds after the first.\<close>

lemma three_hourly_nth:
  "three_hourly (d # ds) \<Longrightarrow> i < length (d # ds) \<Longrightarrow>
   fe_dt ((d # ds) ! i) = fe_dt d + 10800 * int i"
proof (induction ds arbitrary: d i)
  case Nil
  then show ?case by simp
next
  case (Cons e ds)
  show ?case
  proof (cases i)
    case 0
    then show ?thesis by simp
  next
    case (Suc j)
    have t: "three_hourly (e # ds)" and s: "fe_dt e = fe_dt d + 10800"
      using Cons.prems(1) by simp_all
    have "j < length (e # ds)" using Cons.prems(2) Suc by simp
    from Cons.IH[OF t this] have "fe_dt ((e # ds) ! j) = fe_dt e + 10800 * int j" .
    then show ?thesis using Suc s by simp
  qed
qed

lemma three_hourly_day:
  assumes t: "three_hourly xs" and i: "i < length xs" and m: "i mod 8 = 7"
  shows "day_of tz (xs ! i) = (fe_dt (xs ! 0) + tz + 75600) div 86400 + int (i div 8)"
proof -
  obtain d ds where xs: "xs = d # ds" using i by (cases xs) auto
  have dt: "fe_dt (xs ! i) = fe_dt (xs ! 0) + 10800 * int i"
    using three_hourly_nth[of d ds i] t i unfolding xs by simp
  have "i = 8 * (i div 8) + 7" using m by (metis mult_div_mod_eq)
  then have "int i = 8 * int (i div 8) + 7" by (metis of_nat_add of_nat_mult of_nat_numeral)
  then have "fe_dt (xs ! i) + tz = (fe_dt (xs ! 0) + tz + 75600) + 86400 * int (i div 8)"
    using dt by simp
  then have "day_of tz (xs ! i) = ((fe_dt (xs ! 0) + tz + 75600) + 86400 * int (i div 8)) div 86400"
    by (simp add: day_of_def)
  also have "\<dots> = int (i div 8) + (fe_dt (xs ! 0) + tz + 75600) div 86400"
    by (rule div_mult_self2) simp
  finally show ?thesis by simp
qed

lemma three_hourly_distinct_days:
  assumes t: "three_hourly xs"
  shows "distinct (map (\<lambda>i. day_of tz (xs ! i)) (filter (\<lambda>i. i mod 8 = 7) [0..<length xs]))"
proof -
  have "inj_on (\<lambda>i. day_of tz (xs ! i)) (set (filter (\<lambda>i. i mod 8 = 7) [0..<length xs]))"
  proof (rule inj_onI)
    fix i j
    assume i: "i \<in> set (filter (\<lambda>i. i mod 8 = 7) [0..<length xs])"
      and j: "j \<in> set (filter (\<lambda>i. i mod 8 = 7) [0..<length xs])"
      and e: "day_of tz (xs ! i) = day_of tz (xs ! j)"
    have il: "i < length xs" and im: "i mod 8 = 7" using i by simp_all
    have jl: "j < length xs" and jm: "j mod 8 = 7" using j by simp_all
    have "int (i div 8) = int (j div 8)"
      using e unfolding three_hourly_day[OF t il im] three_hourly_day[OF t jl jm] by simp
    then have "i div 8 = j div 8" by simp
    then show "i = j" using im jm by (metis mult_div_mod_eq)
  qed
  then show ?thesis by (simp add: distinct_map)
qed

text \<open>
  C4: for every forecast list (each entry carrying a weather element), the forecast
  callback runs to its end and the daily card holds the renderings of the elements at the
  indices 7, 15, 23, ... below the length of the list, in this order. On the list of the
  5-day/3-hour endpoint, whose entries are three hours apart, these elements are 24 hours
  apart, so each falls on a day of its own, in whatever time zone the day is taken.
\<close>

theorem daily_entries_sampled:
  assumes "\<forall>d \<in> set (fc_list fc). fe_weather d \<noteq> []"
  shows "\<exists>st'. forecastCb r lat lon cw fc st = Inr st' \<and>
     forecast_section st' =
       [map (\<lambda>i. dailyLi (fc_list fc ! i) (hd (fe_weather (fc_list fc ! i))))
          (filter (\<lambda>i. i mod 8 = 7) [0..<length (fc_list fc)])] \<and>
     (three_hourly (fc_list fc) \<longrightarrow>
        distinct (map (\<lambda>i. day_of tz (fc_list fc ! i))
          (filter (\<lambda>i. i mod 8 = 7) [0..<length (fc_list fc)])))"
  by (simp add: forecastCb_ok[OF assms] sampled_7 three_hourly_distinct_days)

theorem daily_entries_sampled_witness:
  "\<exists>st'. forecastCb 0 23 90 sample_current sample_three_hourly initial = Inr st' \<and>
     map di_dt_txt (concat (forecast_section st'))
       = [''2024-01-01 21:00:00'', ''2024-01-02 21:00:00''] \<and>
     map (\<lambda>i. day_of 0 (fc_list sample_three_hourly ! i)) [7, 15] = [19723, 19724]"
proof -
  have wf: "\<forall>d \<in> set (fc_list sample_three_hourly). fe_weather d \<noteq> []"
    by (simp add: sample_three_hourly_def sample_entry_def)
  have th: "three_hourly (fc_list sample_three_hourly)"
    by (simp add: sample_three_hourly_def sample_entry_def)
  have l: "length (fc_list sample_three_hourly) = 16"
    by (simp add: sample_three_hourly_def)
  have s: "filter (\<lambda>i. i mod 8 = 7) [0..<16] = [7, 15::nat]"
    using sampled_7[of 16] by (simp add: sampled_7_16)
  have n: "fc_list sample_three_hourly ! 7 = sample_entry 21 ''2024-01-01 21:00:00'' clear_sky"
    "fc_list sample_three_hourly ! 15 = sample_entry 45 ''2024-01-02 21:00:00'' clear_sky"
    by (simp_all add: sample_three_hourly_def)
  have d: "map (\<lambda>i. day_of 0 (fc_list sample_three_hourly ! i)) [7, 15] = [19723, 19724]"
    by (simp add: n day_of_def sample_entry_def)
  show ?thesis
    using daily_entries_sampled[OF wf, of 0 23 90 sample_current initial 0] th d
    unfolding l s
    by (auto simp add: n dailyLi_def sample_entry_def)
qed

subsection \<open>The entry of \<open>updateWeather\<close>\<close>

text \<open>
  C7: every call of \<open>updateWeather\<close> empties the four regions (current weather, hourly
  forecast, highlights, 5-day forecast), activates the loading indicator, and disables the
  current-location control exactly when the hash is the current-location route, enabling
  it otherwise. All this is done when the call returns, and no callback has run by then:
  the call has issued the current-weather request, which is in flight, and nothing has
  completed.
\<close>

theorem updateWeather_entry:
  "current_weather_section (updateWeather lat lon st) = [] \<and>
   hourly_section (updateWeather lat lon st) = [] \<and>
   highlight_section (updateWeather lat lon st) = [] \<and>
   forecast_section (updateWeather lat lon st) = [] \<and>
   loading_active (updateWeather lat lon st) \<and>
   current_location_disabled (updateWeather lat lon st)
     = (location_hash st = ''#/current-location'') \<and>
   pending (updateWeather lat lon st)
     = pending st @ [\<lparr>req_url = CurrentWeather lat lon,
                        req_cb = CurrentWeatherCb (runs st) lat lon\<rparr>] \<and>
   fetch_log (updateWeather lat lon st)
     = fetch_log st @ [Issued (Run (runs st)) (CurrentWeather lat lon)] \<and>
   cards (updateWeather lat lon st) = cards st \<and>
   uncaught (updateWeather lat lon st) = uncaught st"
  by (simp add: updateWeather_def Let_def fetchData_def)

text \<open>
  C10: every call of \<open>updateWeather\<close> sets the display of the error panel to "none", so an
  error shown by \<open>error404\<close> is hidden when a new load begins.
\<close>

theorem updateWeather_hides_error:
  "error_display (updateWeather lat lon st) = ''none'' \<and>
   error_display (error404 st) = ''flex'' \<and>
   error_display (updateWeather lat lon (error404 st)) = ''none''"
  by (simp add: updateWeather_def Let_def fetchData_def error404_def)

subsection \<open>Input events of the search field\<close>

text \<open>
  C8: an input event with the field empty empties the result panel, removes its active
  state and the "searching" class of the field, and schedules nothing: the timers and the
  requests are those of before.
\<close>

theorem empty_input_clears_search:
  "search_result (step (Input []) st) = [] \<and>
   \<not> search_result_active (step (Input []) st) \<and>
   \<not> search_field_searching (step (Input []) st) \<and>
   timers (step (Input []) st) = timers st \<and>
   pending (step (Input []) st) = pending st \<and>
   fetch_log (step (Input []) st) = fetch_log st"
  by (simp add: searchInput_def Let_def split: option.split)

text \<open>
  C1 says that keystrokes followed by the delay give one geocoding fetch, for the final
  value. The listener clears the timer only when there is none to clear, so every
  keystroke keeps its timer: two keystrokes 100 ms apart give two fetches, both reading the
  final value.
\<close>

theorem debounce_two_fetches:
  "fetch_log (run [Input ''a'', Elapse 100, Input ''ab'', Elapse 500] initial)
     = [Issued Search (Geo ''ab''), Issued Search (Geo ''ab'')]"
  by (simp add: initial_def searchInput_def setTimeout_def searchTimeoutDuration_def
      elapse_def searchTimerCb_def fetchData_def)

subsection \<open>\<open>error404\<close>\<close>

lemma invoke_error_display: "error_display (settle (invoke cb body st)) = error_display st"
  by (cases rule: invoke_cases[of cb body st]) simp_all

lemma step_error_display:
  assumes ne: "e \<noteq> CallError404"
  shows "error_display (step e st) = error_display st \<or> error_display (step e st) = ''none''"
proof (cases e)
  case (Input v)
  then show ?thesis
    by (simp add: searchInput_def Let_def setTimeout_def split: option.split)
next
  case (Elapse n)
  obtain ts k where "elapse n st =
     st\<lparr>clock := clock st + n, timers := ts,
        pending := pending st @
          replicate k \<lparr>req_url = Geo (search_field_value st), req_cb = GeoCb\<rparr>,
        fetch_log := fetch_log st @ replicate k (Issued Search (Geo (search_field_value st)))\<rparr>"
    using elapse_shape by blast
  then show ?thesis using Elapse by simp
next
  case (Response i body)
  then show ?thesis
    by (cases "i < length (pending st)") (simp_all add: respond_eq respond_idle invoke_error_display)
next
  case (Failure i)
  then show ?thesis by (simp add: fail_def Let_def)
next
  case (CallUpdateWeather lat lon)
  then show ?thesis by (simp add: updateWeather_def Let_def fetchData_def)
next
  case CallError404
  then show ?thesis using ne by simp
next
  case SearchTogglerClick
  then show ?thesis by (simp add: toggleSearch_def)
next
  case SearchItemClick
  then show ?thesis by (simp add: searchItemClick_def toggleSearch_def)
next
  case CurrentLocationClick
  then show ?thesis by (simp add: currentLocationClick_def)
qed

lemma run_error_display:
  "CallError404 \<notin> set evs \<Longrightarrow> error_display st \<noteq> ''flex'' \<Longrightarrow>
   error_display (run evs st) \<noteq> ''flex''"
proof (induction evs arbitrary: st)
  case Nil
  then show ?case by simp
next
  case (Cons e evs)
  have "e \<noteq> CallError404" using Cons.prems(1) by auto
  then have "error_display (step e st) \<noteq> ''flex''"
    using step_error_display[of e st] Cons.prems(2) by auto
  then show ?case using Cons.IH[of "step e st"] Cons.prems(1) by simp
qed

text \<open>
  C9: \<open>error404\<close> sets the display of the error panel to "flex" and deactivates the
  loading indicator, from any state, and changes nothing else. No handler of the module
  calls it: a request that fails leaves the error panel as it is, and whatever events
  occur, callbacks that throw among them, the panel is not shown unless it was shown
  before or the router calls \<open>error404\<close>.
\<close>

theorem error404_effect:
  "error404 st = st\<lparr>error_display := ''flex'', loading_active := False\<rparr> \<and>
   error_display (fail i st) = error_display st \<and>
   (CallError404 \<notin> set evs \<and> error_display st \<noteq> ''flex''
      \<longrightarrow> error_display (run evs st) \<noteq> ''flex'')"
  using run_error_display[of evs st]
  by (simp add: error404_def fail_def Let_def)

theorem error404_effect_witness:
  "error404 initial = initial\<lparr>error_display := ''flex'', loading_active := False\<rparr> \<and>
   error_display (run [CallUpdateWeather 23 90, Failure 0] initial) \<noteq> ''flex'' \<and>
   loading_active (run [CallUpdateWeather 23 90, Failure 0] initial)"
proof -
  have a: "CallError404 \<notin> set [CallUpdateWeather 23 90, Failure 0]" by simp
  have b: "error_display initial \<noteq> ''flex''" by (simp add: initial_def)
  have c: "loading_active (run [CallUpdateWeather 23 90, Failure 0] initial)"
    by (simp add: initial_def updateWeather_def Let_def fetchData_def fail_def remove_nth_def)
  show ?thesis
    using error404_effect[of initial 0 "[CallUpdateWeather 23 90, Failure 0]"] a b c
    by blast
qed

subsection \<open>The order of the three requests\<close>

lemma precedes_append_no_Q:
  "precedes P Q xs \<Longrightarrow> \<forall>y \<in> set ys. \<not> Q y \<Longrightarrow> precedes P Q (xs @ ys)"
proof (induction xs)
  case Nil
  then show ?case by (induction ys) auto
next
  case (Cons x xs)
  then show ?case by (auto split: if_splits)
qed

lemma precedes_after_P:
  "precedes P Q xs \<Longrightarrow> P x \<Longrightarrow> precedes P Q (xs @ x # ys)"
  by (induction xs) (auto split: if_splits)

lemma set_remove_nth: "set (remove_nth i xs) \<subseteq> set xs"
  unfolding remove_nth_def by (auto dest: in_set_takeD in_set_dropD)

lemma filter_remove_nth:
  assumes "i < length xs"
  shows "length (filter C (remove_nth i xs)) =
         length (filter C xs) - (if C (xs ! i) then 1 else 0)"
proof -
  have "xs = take i xs @ xs ! i # drop (Suc i) xs"
    using assms by (rule id_take_nth_drop)
  then have "filter C xs = filter C (take i xs) @ filter C [xs ! i] @ filter C (drop (Suc i) xs)"
    by (metis append_Cons append_Nil filter_append)
  then show ?thesis by (simp add: remove_nth_def)
qed

text \<open>What a response does to the requests in flight and to the log.\<close>

lemma respond_net:
  assumes i: "i < length (pending st)"
  obtains (nothing)
      "pending (respond i body st) = remove_nth i (pending st)"
      "fetch_log (respond i body st) = fetch_log st @
         [Completed (origin_of (req_cb (pending st ! i))) (req_url (pending st ! i))]"
  | (current) r lat lon cw a where "req_cb (pending st ! i) = CurrentWeatherCb r lat lon"
      "pending (respond i body st) = remove_nth i (pending st) @
         [\<lparr>req_url = ReverseGeo lat lon, req_cb = ReverseGeoCb r a\<rparr>,
          \<lparr>req_url = Forecast lat lon, req_cb = ForecastCb r lat lon cw\<rparr>]"
      "fetch_log (respond i body st) = fetch_log st @
         [Completed (Run r) (req_url (pending st ! i)),
          Issued (Run r) (ReverseGeo lat lon), Issued (Run r) (Forecast lat lon)]"
  | (forecast) r lat lon cw tz where "req_cb (pending st ! i) = ForecastCb r lat lon cw"
      "pending (respond i body st) = remove_nth i (pending st) @
         [\<lparr>req_url = AirPollution lat lon, req_cb = AirPollutionCb r cw tz\<rparr>]"
      "fetch_log (respond i body st) = fetch_log st @
         [Completed (Run r) (req_url (pending st ! i)), Issued (Run r) (AirPollution lat lon)]"
proof -
  let ?q = "pending st ! i"
  let ?st1 = "st\<lparr>pending := remove_nth i (pending st),
           fetch_log := fetch_log st @ [Completed (origin_of (req_cb ?q)) (req_url ?q)]\<rparr>"
  note e = respond_eq[OF i, of body]
  show thesis
  proof (cases rule: invoke_cases[of "req_cb ?q" body ?st1])
    case throws
    have r: "respond i body st = ?st1\<lparr>uncaught := uncaught ?st1 @ [TypeError]\<rparr>"
      unfolding e by (rule throws)
    show ?thesis by (rule nothing) (simp_all add: r)
  next
    case (geo sr u)
    have r: "respond i body st = ?st1\<lparr>search_field_searching := False, search_result_active := True,
            search_result := sr, uncaught := u\<rparr>"
      unfolding e by (rule geo(3))
    show ?thesis by (rule nothing) (simp_all add: r)
  next
    case (current r lat lon cw w)
    have r: "respond i body st = ?st1\<lparr>cards := cards ?st1 @ [now_card_of cw w],
            current_weather_section := current_weather_section ?st1 @ [length (cards ?st1)],
            pending := pending ?st1 @
              [\<lparr>req_url = ReverseGeo lat lon, req_cb = ReverseGeoCb r (length (cards ?st1))\<rparr>,
               \<lparr>req_url = Forecast lat lon, req_cb = ForecastCb r lat lon cw\<rparr>],
            fetch_log := fetch_log ?st1 @
              [Issued (Run r) (ReverseGeo lat lon), Issued (Run r) (Forecast lat lon)]\<rparr>"
      unfolding e by (rule current(2))
    show ?thesis by (rule that(2)[OF current(1)]) (simp_all add: r current(1))
  next
    case (reverse r a cs)
    have r: "respond i body st = ?st1\<lparr>cards := cs\<rparr>"
      unfolding e by (rule reverse(2))
    show ?thesis by (rule nothing) (simp_all add: r)
  next
    case (forecast_hourly_throws r lat lon cw hs)
    have r: "respond i body st = ?st1\<lparr>hourly_section := hs, uncaught := uncaught ?st1 @ [TypeError]\<rparr>"
      unfolding e by (rule forecast_hourly_throws(2))
    show ?thesis by (rule nothing) (simp_all add: r)
  next
    case (forecast_daily_throws r lat lon cw tz items fs)
    have r: "respond i body st = ?st1\<lparr>hourly_section := [items], forecast_section := fs,
            pending := pending ?st1 @
              [\<lparr>req_url = AirPollution lat lon, req_cb = AirPollutionCb r cw tz\<rparr>],
            fetch_log := fetch_log ?st1 @ [Issued (Run r) (AirPollution lat lon)],
            uncaught := uncaught ?st1 @ [TypeError]\<rparr>"
      unfolding e by (rule forecast_daily_throws(2))
    show ?thesis
      by (rule that(3)[OF forecast_daily_throws(1)]) (simp_all add: r forecast_daily_throws(1))
  next
    case (forecast r lat lon cw tz items ds)
    have r: "respond i body st = ?st1\<lparr>hourly_section := [items], forecast_section := [ds],
            loading_active := False, container_overflowY := ''overlay'',
            container_fade_in := True,
            pending := pending ?st1 @
              [\<lparr>req_url = AirPollution lat lon, req_cb = AirPollutionCb r cw tz\<rparr>],
            fetch_log := fetch_log ?st1 @ [Issued (Run r) (AirPollution lat lon)]\<rparr>"
      unfolding e by (rule forecast(3))
    show ?thesis by (rule that(3)[OF forecast(1)]) (simp_all add: r forecast(1))
  next
    case (air r cw tz c)
    have r: "respond i body st = ?st1\<lparr>highlight_section := highlight_section ?st1 @ [c]\<rparr>"
      unfolding e by (rule air(2))
    show ?thesis by (rule nothing) (simp_all add: r)
  qed
qed

lemma respond_runs: "runs (respond i body st) = runs st"
proof (cases "i < length (pending st)")
  case True
  let ?q = "pending st ! i"
  let ?st1 = "st\<lparr>pending := remove_nth i (pending st),
           fetch_log := fetch_log st @ [Completed (origin_of (req_cb ?q)) (req_url ?q)]\<rparr>"
  show ?thesis
    unfolding respond_eq[OF True]
    by (cases rule: invoke_cases[of "req_cb ?q" body ?st1]) simp_all
next
  case False
  then show ?thesis by (simp add: respond_idle)
qed

lemma updateWeather_net:
  "pending (updateWeather lat lon st) =
     pending st @ [\<lparr>req_url = CurrentWeather lat lon, req_cb = CurrentWeatherCb (runs st) lat lon\<rparr>]"
  "fetch_log (updateWeather lat lon st) = fetch_log st @ [Issued (Run (runs st)) (CurrentWeather lat lon)]"
  "runs (updateWeather lat lon st) = Suc (runs st)"
  by (simp_all add: updateWeather_def Let_def fetchData_def)

lemma wf_request_mono: "wf_request n q \<Longrightarrow> wf_request (Suc n) q"
  by (cases "origin_of (req_cb q)") (simp_all add: wf_request_def)

lemma step_wf:
  assumes wf: "\<forall>q \<in> set (pending st). wf_request (runs st) q"
  shows "\<forall>q \<in> set (pending (step e st)). wf_request (runs (step e st)) q"
proof (cases e)
  case (Input v)
  then show ?thesis using wf
    by (simp add: searchInput_def Let_def setTimeout_def split: option.split)
next
  case (Elapse n)
  obtain ts k where "elapse n st =
     st\<lparr>clock := clock st + n, timers := ts,
        pending := pending st @
          replicate k \<lparr>req_url = Geo (search_field_value st), req_cb = GeoCb\<rparr>,
        fetch_log := fetch_log st @ replicate k (Issued Search (Geo (search_field_value st)))\<rparr>"
    using elapse_shape by blast
  then show ?thesis using Elapse wf by (auto simp add: wf_request_def)
next
  case (Response i body)
  show ?thesis
  proof (cases "i < length (pending st)")
    case False
    then show ?thesis using Response wf by (simp add: respond_idle)
  next
    case True
    then have q: "wf_request (runs st) (pending st ! i)" using wf by simp
    have old: "\<forall>q \<in> set (remove_nth i (pending st)). wf_request (runs st) q"
      using wf set_remove_nth[of i "pending st"] by blast
    from True show ?thesis
    proof (cases rule: respond_net[of i st body])
      case nothing
      then show ?thesis using Response old by (simp add: respond_runs)
    next
      case (current r lat lon cw a)
      then show ?thesis using Response old q by (auto simp add: respond_runs wf_request_def)
    next
      case (forecast r lat lon cw tz)
      then show ?thesis using Response old q by (auto simp add: respond_runs wf_request_def)
    qed
  qed
next
  case (Failure i)
  have "\<forall>q \<in> set (remove_nth i (pending st)). wf_request (runs st) q"
    using wf set_remove_nth[of i "pending st"] by blast
  then show ?thesis using Failure wf by (simp add: fail_def Let_def)
next
  case (CallUpdateWeather lat lon)
  have "wf_request (Suc (runs st))
      \<lparr>req_url = CurrentWeather lat lon, req_cb = CurrentWeatherCb (runs st) lat lon\<rparr>"
    by (simp add: wf_request_def)
  then show ?thesis using CallUpdateWeather wf
    by (auto simp add: updateWeather_net intro: wf_request_mono)
next
  case CallError404
  then show ?thesis using wf by (simp add: error404_def)
next
  case SearchTogglerClick
  then show ?thesis using wf by (simp add: toggleSearch_def)
next
  case SearchItemClick
  then show ?thesis using wf by (simp add: searchItemClick_def toggleSearch_def)
next
  case CurrentLocationClick
  then show ?thesis using wf by (simp add: currentLocationClick_def)
qed


text \<open>What a step appends to the log.\<close>

lemma step_log:
  assumes wf: "\<forall>q \<in> set (pending st). wf_request (runs st) q"
  obtains (quiet) ys where "fetch_log (step e st) = fetch_log st @ ys"
      "\<forall>y \<in> set ys. \<forall>r k. k \<noteq> CurrentWeatherE \<longrightarrow> \<not> is_issued r k y"
  | (current) r u lat lon where "endpoint_of u = CurrentWeatherE"
      "fetch_log (step e st) = fetch_log st @
         [Completed (Run r) u, Issued (Run r) (ReverseGeo lat lon), Issued (Run r) (Forecast lat lon)]"
  | (forecast) r u lat lon where "endpoint_of u = ForecastE"
      "fetch_log (step e st) = fetch_log st @
         [Completed (Run r) u, Issued (Run r) (AirPollution lat lon)]"
proof (cases e)
  case (Input v)
  have "fetch_log (step e st) = fetch_log st @ []"
    using Input by (simp add: searchInput_def Let_def setTimeout_def split: option.split)
  then show ?thesis by (rule quiet) simp
next
  case (Elapse n)
  obtain ts k where "elapse n st =
     st\<lparr>clock := clock st + n, timers := ts,
        pending := pending st @
          replicate k \<lparr>req_url = Geo (search_field_value st), req_cb = GeoCb\<rparr>,
        fetch_log := fetch_log st @ replicate k (Issued Search (Geo (search_field_value st)))\<rparr>"
    using elapse_shape by blast
  then have "fetch_log (step e st)
      = fetch_log st @ replicate k (Issued Search (Geo (search_field_value st)))"
    using Elapse by simp
  then show ?thesis by (rule quiet) simp
next
  case (Response i body)
  show ?thesis
  proof (cases "i < length (pending st)")
    case False
    then have "fetch_log (step e st) = fetch_log st @ []"
      using Response by (simp add: respond_idle)
    then show ?thesis by (rule quiet) simp
  next
    case True
    then have q: "wf_request (runs st) (pending st ! i)" using wf by simp
    from True show ?thesis
    proof (cases rule: respond_net[of i st body])
      case nothing
      then have "fetch_log (step e st) = fetch_log st @
         [Completed (origin_of (req_cb (pending st ! i))) (req_url (pending st ! i))]"
        using Response by simp
      then show ?thesis by (rule quiet) simp
    next
      case (current r lat lon cw a)
      have "endpoint_of (req_url (pending st ! i)) = CurrentWeatherE"
        using q current(1) by (simp add: wf_request_def)
      then show ?thesis using Response current(3) by (intro that(2)) simp_all
    next
      case (forecast r lat lon cw tz)
      have "endpoint_of (req_url (pending st ! i)) = ForecastE"
        using q forecast(1) by (simp add: wf_request_def)
      then show ?thesis using Response forecast(3) by (intro that(3)) simp_all
    qed
  qed
next
  case (Failure i)
  show ?thesis
  proof (cases "i < length (pending st)")
    case False
    then have "fetch_log (step e st) = fetch_log st @ []"
      using Failure by (simp add: fail_def)
    then show ?thesis by (rule quiet) simp
  next
    case True
    then have "fetch_log (step e st) = fetch_log st @
        [Failed (origin_of (req_cb (pending st ! i))) (req_url (pending st ! i))]"
      using Failure by (simp add: fail_def Let_def)
    then show ?thesis by (rule quiet) simp
  qed
next
  case (CallUpdateWeather lat lon)
  have "fetch_log (step e st) = fetch_log st @ [Issued (Run (runs st)) (CurrentWeather lat lon)]"
    using CallUpdateWeather by (simp add: updateWeather_net)
  then show ?thesis by (rule quiet) simp
next
  case CallError404
  have "fetch_log (step e st) = fetch_log st @ []"
    using CallError404 by (simp add: error404_def)
  then show ?thesis by (rule quiet) simp
next
  case SearchTogglerClick
  have "fetch_log (step e st) = fetch_log st @ []"
    using SearchTogglerClick by (simp add: toggleSearch_def)
  then show ?thesis by (rule quiet) simp
next
  case SearchItemClick
  have "fetch_log (step e st) = fetch_log st @ []"
    using SearchItemClick by (simp add: searchItemClick_def toggleSearch_def)
  then show ?thesis by (rule quiet) simp
next
  case CurrentLocationClick
  have "fetch_log (step e st) = fetch_log st @ []"
    using CurrentLocationClick by (simp add: currentLocationClick_def)
  then show ?thesis by (rule quiet) simp
qed

lemma step_forecast_after_current:
  assumes wf: "\<forall>q \<in> set (pending st). wf_request (runs st) q"
    and p: "precedes (is_completed r CurrentWeatherE) (is_issued r ForecastE) (fetch_log st)"
  shows "precedes (is_completed r CurrentWeatherE) (is_issued r ForecastE) (fetch_log (step e st))"
  using wf
proof (cases rule: step_log[of st e])
  case (quiet ys)
  have "\<forall>y \<in> set ys. \<not> is_issued r ForecastE y" using quiet(2) by simp
  then show ?thesis unfolding quiet(1) using p by (intro precedes_append_no_Q)
next
  case (current r' u lat lon)
  show ?thesis
  proof (cases "r' = r")
    case True
    have "is_completed r CurrentWeatherE (Completed (Run r') u)"
      using True current(1) by simp
    then show ?thesis unfolding current(2) using p by (intro precedes_after_P)
  next
    case False
    then show ?thesis unfolding current(2) using p by (intro precedes_append_no_Q) simp_all
  qed
next
  case (forecast r' u lat lon)
  show ?thesis unfolding forecast(2) using p by (intro precedes_append_no_Q) simp_all
qed

lemma step_air_after_forecast:
  assumes wf: "\<forall>q \<in> set (pending st). wf_request (runs st) q"
    and p: "precedes (is_completed r ForecastE) (is_issued r AirPollutionE) (fetch_log st)"
  shows "precedes (is_completed r ForecastE) (is_issued r AirPollutionE) (fetch_log (step e st))"
  using wf
proof (cases rule: step_log[of st e])
  case (quiet ys)
  have "\<forall>y \<in> set ys. \<not> is_issued r AirPollutionE y" using quiet(2) by simp
  then show ?thesis unfolding quiet(1) using p by (intro precedes_append_no_Q)
next
  case (current r' u lat lon)
  show ?thesis unfolding current(2) using p by (intro precedes_append_no_Q) simp_all
next
  case (forecast r' u lat lon)
  show ?thesis
  proof (cases "r' = r")
    case True
    have "is_completed r ForecastE (Completed (Run r') u)"
      using True forecast(1) by simp
    then show ?thesis unfolding forecast(2) using p by (intro precedes_after_P)
  next
    case False
    then show ?thesis unfolding forecast(2) using p by (intro precedes_append_no_Q) simp_all
  qed
qed


lemma in_flight_fresh:
  assumes wf: "\<forall>q \<in> set (pending st). wf_request (runs st) q"
  shows "in_flight (runs st) st = []"
proof -
  have "\<forall>q \<in> set (pending st). origin_of (req_cb q) \<noteq> Run (runs st)"
    using wf by (auto simp add: wf_request_def)
  then show ?thesis by (simp add: in_flight_def filter_empty_conv)
qed

lemma step_in_flight:
  assumes wf: "\<forall>q \<in> set (pending st). wf_request (runs st) q"
    and one: "length (in_flight r st) \<le> 1"
  shows "length (in_flight r (step e st)) \<le> 1"
proof (cases e)
  case (Input v)
  then show ?thesis using one
    by (simp add: in_flight_def searchInput_def Let_def setTimeout_def split: option.split)
next
  case (Elapse n)
  obtain ts k where "elapse n st =
     st\<lparr>clock := clock st + n, timers := ts,
        pending := pending st @
          replicate k \<lparr>req_url = Geo (search_field_value st), req_cb = GeoCb\<rparr>,
        fetch_log := fetch_log st @ replicate k (Issued Search (Geo (search_field_value st)))\<rparr>"
    using elapse_shape by blast
  then show ?thesis using Elapse one by (simp add: in_flight_def)
next
  case (Response i body)
  show ?thesis
  proof (cases "i < length (pending st)")
    case False
    then show ?thesis using Response one by (simp add: respond_idle)
  next
    case True
    let ?C = "\<lambda>q. origin_of (req_cb q) = Run r \<and> chain_endpoint (endpoint_of (req_url q))"
    have q: "wf_request (runs st) (pending st ! i)" using wf True by simp
    have rem: "length (filter ?C (remove_nth i (pending st))) =
         length (filter ?C (pending st)) - (if ?C (pending st ! i) then 1 else 0)"
      using True by (rule filter_remove_nth)
    have one': "length (filter ?C (pending st)) \<le> 1" using one by (simp add: in_flight_def)
    from True show ?thesis
    proof (cases rule: respond_net[of i st body])
      case nothing
      then show ?thesis using Response rem one' by (simp add: in_flight_def)
    next
      case (current r' lat lon cw a)
      have "?C (pending st ! i) = (r' = r)"
        using q current(1) by (auto simp add: wf_request_def chain_endpoint_def)
      then show ?thesis using Response rem one' current(2)
        by (auto simp add: in_flight_def chain_endpoint_def)
    next
      case (forecast r' lat lon cw tz)
      have "?C (pending st ! i) = (r' = r)"
        using q forecast(1) by (auto simp add: wf_request_def chain_endpoint_def)
      then show ?thesis using Response rem one' forecast(2)
        by (auto simp add: in_flight_def chain_endpoint_def)
    qed
  qed
next
  case (Failure i)
  show ?thesis
  proof (cases "i < length (pending st)")
    case False
    then show ?thesis using Failure one by (simp add: fail_def)
  next
    case True
    let ?C = "\<lambda>q. origin_of (req_cb q) = Run r \<and> chain_endpoint (endpoint_of (req_url q))"
    have "length (filter ?C (remove_nth i (pending st))) =
         length (filter ?C (pending st)) - (if ?C (pending st ! i) then 1 else 0)"
      using True by (rule filter_remove_nth)
    then show ?thesis using Failure True one by (simp add: fail_def Let_def in_flight_def)
  qed
next
  case (CallUpdateWeather lat lon)
  show ?thesis
  proof (cases "r = runs st")
    case True
    have "filter (\<lambda>q. origin_of (req_cb q) = Run (runs st) \<and> chain_endpoint (endpoint_of (req_url q)))
            (pending st) = []"
      using in_flight_fresh[OF wf] by (simp add: in_flight_def)
    then show ?thesis using CallUpdateWeather True
      by (simp add: in_flight_def updateWeather_net)
  next
    case False
    then show ?thesis using CallUpdateWeather one
      by (simp add: in_flight_def updateWeather_net)
  qed
next
  case CallError404
  then show ?thesis using one by (simp add: in_flight_def error404_def)
next
  case SearchTogglerClick
  then show ?thesis using one by (simp add: in_flight_def toggleSearch_def)
next
  case SearchItemClick
  then show ?thesis using one by (simp add: in_flight_def searchItemClick_def toggleSearch_def)
next
  case CurrentLocationClick
  then show ?thesis using one by (simp add: in_flight_def currentLocationClick_def)
qed

lemma run_chain:
  assumes "\<forall>q \<in> set (pending st). wf_request (runs st) q"
    and "precedes (is_completed r CurrentWeatherE) (is_issued r ForecastE) (fetch_log st)"
    and "precedes (is_completed r ForecastE) (is_issued r AirPollutionE) (fetch_log st)"
    and "length (in_flight r st) \<le> 1"
  shows "precedes (is_completed r CurrentWeatherE) (is_issued r ForecastE) (fetch_log (run evs st)) \<and>
         precedes (is_completed r ForecastE) (is_issued r AirPollutionE) (fetch_log (run evs st)) \<and>
         length (in_flight r (run evs st)) \<le> 1"
  using assms
proof (induction evs arbitrary: st)
  case Nil
  then show ?case by simp
next
  case (Cons e evs)
  have "precedes (is_completed r CurrentWeatherE) (is_issued r ForecastE) (fetch_log (run evs (step e st))) \<and>
         precedes (is_completed r ForecastE) (is_issued r AirPollutionE) (fetch_log (run evs (step e st))) \<and>
         length (in_flight r (run evs (step e st))) \<le> 1"
  proof (rule Cons.IH)
    show "\<forall>q \<in> set (pending (step e st)). wf_request (runs (step e st)) q"
      using Cons.prems(1) by (rule step_wf)
    show "precedes (is_completed r CurrentWeatherE) (is_issued r ForecastE) (fetch_log (step e st))"
      using Cons.prems(1,2) by (rule step_forecast_after_current)
    show "precedes (is_completed r ForecastE) (is_issued r AirPollutionE) (fetch_log (step e st))"
      using Cons.prems(1,3) by (rule step_air_after_forecast)
    show "length (in_flight r (step e st)) \<le> 1"
      using Cons.prems(1,4) by (rule step_in_flight)
  qed
  then show ?case by simp
qed

text \<open>
  C5: in every call of \<open>updateWeather\<close> (numbered \<open>r\<close>), whatever the order in which
  responses arrive and whatever else happens on the page, other calls of \<open>updateWeather\<close>
  among it, the forecast request is issued only after the current-weather request of
  the call has completed, the air-pollution request only after its forecast request has
  completed, and at no moment are two of the three in flight.
\<close>

theorem chain_is_sequential:
  assumes "pending st = []" and "fetch_log st = []"
  shows "precedes (is_completed r CurrentWeatherE) (is_issued r ForecastE) (fetch_log (run evs st)) \<and>
         precedes (is_completed r ForecastE) (is_issued r AirPollutionE) (fetch_log (run evs st)) \<and>
         length (in_flight r (run evs st)) \<le> 1"
  by (rule run_chain) (simp_all add: assms in_flight_def)

theorem chain_is_sequential_witness:
  "fetch_log (run [CallUpdateWeather 23 90, Response 0 (RCurrentWeather sample_current),
       Response 1 (RForecast sample_forecast), Response 1 (RAirPollution sample_air)] initial)
   = [Issued (Run 0) (CurrentWeather 23 90), Completed (Run 0) (CurrentWeather 23 90),
      Issued (Run 0) (ReverseGeo 23 90), Issued (Run 0) (Forecast 23 90),
      Completed (Run 0) (Forecast 23 90), Issued (Run 0) (AirPollution 23 90),
      Completed (Run 0) (AirPollution 23 90)] \<and>
   precedes (is_completed 0 CurrentWeatherE) (is_issued 0 ForecastE)
     (fetch_log (run [CallUpdateWeather 23 90, Response 0 (RCurrentWeather sample_current),
       Response 1 (RForecast sample_forecast), Response 1 (RAirPollution sample_air)] initial)) \<and>
   precedes (is_completed 0 ForecastE) (is_issued 0 AirPollutionE)
     (fetch_log (run [CallUpdateWeather 23 90, Response 0 (RCurrentWeather sample_current),
       Response 1 (RForecast sample_forecast), Response 1 (RAirPollution sample_air)] initial)) \<and>
   length (in_flight 0
     (run [CallUpdateWeather 23 90, Response 0 (RCurrentWeather sample_current),
       Response 1 (RForecast sample_forecast), Response 1 (RAirPollution sample_air)] initial)) \<le> 1"
proof -
  have p: "pending initial = []" and l: "fetch_log initial = []"
    by (simp_all add: initial_def)
  have "fetch_log (run [CallUpdateWeather 23 90, Response 0 (RCurrentWeather sample_current),
       Response 1 (RForecast sample_forecast), Response 1 (RAirPollution sample_air)] initial)
   = [Issued (Run 0) (CurrentWeather 23 90), Completed (Run 0) (CurrentWeather 23 90),
      Issued (Run 0) (ReverseGeo 23 90), Issued (Run 0) (Forecast 23 90),
      Completed (Run 0) (Forecast 23 90), Issued (Run 0) (AirPollution 23 90),
      Completed (Run 0) (AirPollution 23 90)]"
    by (simp add: initial_def updateWeather_def Let_def fetchData_def respond_def remove_nth_def
        currentWeatherCb_def sample_current_def sample_forecastCb airPollutionCb_def
        sample_air_def aqiText_has_def)
  then show ?thesis
    using chain_is_sequential[OF p l, of 0 "[CallUpdateWeather 23 90,
       Response 0 (RCurrentWeather sample_current),
       Response 1 (RForecast sample_forecast), Response 1 (RAirPollution sample_air)]"]
    by blast
qed


subsection \<open>The page after one call of \<open>updateWeather\<close>\<close>


















end
